theory Spec2Isabelle
  imports Main "HOL-Library.FSet" "HOL-Library.AList" "HOL-Library.Char_ord"
    "HOL-Library.List_Lexorder"
begin

section \<open>Python values used by paper\_finder.py\<close>

text \<open>
  Python strings are modelled as \<open>string\<close> (ASCII text; the order of \<open>sorted\<close> on
  strings is the lexicographic order of the characters). Timestamps and durations are
  integers counting microseconds, the resolution of \<open>datetime\<close> and \<open>timedelta\<close>;
  a \<open>datetime\<close> counts from 0001-01-01 00:00:00 UTC.
\<close>

datatype py_exception =
    JSONDecodeError | OSError | TypeError | AttributeError | ValueError | OverflowError
  | SMTPAuthenticationError | SMTPException | ArxivError

text \<open>
  The values \<open>json.load\<close> produces. \<open>JNum\<close> stands for an integer literal
  (fractional literals are outside the model). A JSON object is a Python dict: an
  association list in insertion order.
\<close>

datatype json =
    JNull | JBool bool | JNum int | JStr string
  | JArr "json list" | JObj "(string \<times> json) list"

text \<open>The hashable values a Python set built from JSON can hold.\<close>

datatype atom = ANone | ABool bool | ANum int | AStr string

type_synonym pyset = "atom fset"

text \<open>A dict \<open>{group_id: set_of_seen_ids}\<close>, in insertion order.\<close>

type_synonym seen_state = "(string \<times> pyset) list"

text \<open>\<open>d.get(k, set())\<close>\<close>

definition dict_get :: "seen_state \<Rightarrow> string \<Rightarrow> pyset" where
  "dict_get d k = (case map_of d k of None \<Rightarrow> {||} | Some s \<Rightarrow> s)"

text \<open>\<open>d[k] = v\<close>: an existing key keeps its place, a new key goes last.\<close>

definition dict_set :: "('k \<times> 'v) list \<Rightarrow> 'k \<Rightarrow> 'v \<Rightarrow> ('k \<times> 'v) list" where
  "dict_set d k v = AList.update k v d"

section \<open>Times\<close>

definition microseconds_per_hour :: int where
  "microseconds_per_hour = 3600 * 1000000"

text \<open>\<open>timedelta(days=n)\<close> and \<open>timedelta(hours=n)\<close>\<close>

definition timedelta_days :: "int \<Rightarrow> int" where
  "timedelta_days n = n * 24 * microseconds_per_hour"

definition timedelta_hours :: "int \<Rightarrow> int" where
  "timedelta_hours n = n * microseconds_per_hour"

definition CHECK_INTERVAL_HOURS :: int where
  "CHECK_INTERVAL_HOURS = 24"

text \<open>\<open>datetime.max\<close> is 9999-12-31 23:59:59.999999, day 3652059 of the calendar.\<close>

definition datetime_max :: int where
  "datetime_max = 3652059 * 24 * microseconds_per_hour - 1"

text \<open>
  \<open>datetime - timedelta\<close> raises \<open>OverflowError\<close> when the result leaves the range
  of \<open>datetime\<close>.
\<close>

definition datetime_sub :: "int \<Rightarrow> int \<Rightarrow> py_exception + int" where
  "datetime_sub t d =
     (if t - d < 0 \<or> datetime_max < t - d then Inl OverflowError else Inr (t - d))"

section \<open>Search\<close>

text \<open>An \<open>arxiv.Result\<close>, with the fields the program reads.\<close>

record paper =
  entry_id :: string
  title :: string
  authors :: "string list"
  published :: int
  updated :: int
  summary :: string

text \<open>\<open>s.split(c)\<close> for a one-character separator: never the empty list.\<close>

fun split_sep :: "char \<Rightarrow> string \<Rightarrow> string list" where
  "split_sep c [] = [[]]"
| "split_sep c (x # xs) =
     (if x = c then [] # split_sep c xs
      else (case split_sep c xs of
              [] \<Rightarrow> [[x]]
            | w # ws \<Rightarrow> (x # w) # ws))"

text \<open>\<open>result.entry_id.split('/')[-1]\<close>\<close>

definition paper_id :: "paper \<Rightarrow> string" where
  "paper_id p = last (split_sep CHR ''/'' (entry_id p))"

text \<open>\<open>sep.join(xs)\<close>\<close>

fun join :: "string \<Rightarrow> string list \<Rightarrow> string" where
  "join sep [] = []"
| "join sep [x] = x"
| "join sep (x # y # ys) = x @ sep @ join sep (y # ys)"

text \<open>\<open>" AND ".join([f'all:"{k}"' for k in keywords])\<close>\<close>

definition build_query :: "string list \<Rightarrow> string" where
  "build_query keywords =
     join '' AND '' (map (\<lambda>k. ''all:'' @ [CHR 0x22] @ k @ [CHR 0x22]) keywords)"

text \<open>
  What iterating \<open>search.results()\<close> does: it yields results one at a time and may
  raise at any point (a transport or parsing failure of the client); a failure of
  \<open>arxiv.Search\<close> itself is a stream that raises first. Nothing after a \<open>Raise\<close> is
  reached.
\<close>

datatype api_event = Yield paper | Raise

type_synonym arxiv_api = "string \<Rightarrow> api_event list"

text \<open>The test of line 114.\<close>

definition is_new :: "int \<Rightarrow> pyset \<Rightarrow> paper \<Rightarrow> bool" where
  "is_new cutoff_date seen_ids result \<longleftrightarrow>
     (published result \<ge> cutoff_date \<or> updated result \<ge> cutoff_date)
     \<and> AStr (paper_id result) |\<notin>| seen_ids"

text \<open>
  The \<open>for\<close> loop of lines 107 to 120, with \<open>new_papers\<close> as accumulator. It returns
  \<open>new_papers\<close> as it stands when the loop is left, and the exception that ended it,
  if one did.
\<close>

fun search_loop ::
  "int \<Rightarrow> pyset \<Rightarrow> api_event list \<Rightarrow> paper list \<Rightarrow> paper list \<times> py_exception option"
where
  "search_loop cutoff_date seen_ids [] new_papers = (new_papers, None)"
| "search_loop cutoff_date seen_ids (Raise # rest) new_papers = (new_papers, Some ArxivError)"
| "search_loop cutoff_date seen_ids (Yield result # rest) new_papers =
     search_loop cutoff_date seen_ids rest
       (if is_new cutoff_date seen_ids result then new_papers @ [result] else new_papers)"

text \<open>
  The \<open>try\<close> block of \<open>search_new_papers\<close>: \<open>new_papers\<close> when the block is left and
  the exception the \<open>except\<close> clause caught. \<open>now\<close> is \<open>datetime.now(timezone.utc)\<close>.
\<close>

definition search_try ::
  "arxiv_api \<Rightarrow> int \<Rightarrow> string list \<Rightarrow> pyset \<Rightarrow> int \<Rightarrow> paper list \<times> py_exception option"
where
  "search_try api now keywords seen_ids search_timedelta =
     (case datetime_sub now search_timedelta of
        Inl e \<Rightarrow> ([], Some e)
      | Inr cutoff_date \<Rightarrow> search_loop cutoff_date seen_ids (api (build_query keywords)) [])"

text \<open>The \<open>except\<close> clause only logs; the function returns \<open>new_papers\<close>.\<close>

definition search_new_papers ::
  "arxiv_api \<Rightarrow> int \<Rightarrow> string list \<Rightarrow> pyset \<Rightarrow> int \<Rightarrow> paper list"
where
  "search_new_papers api now keywords seen_ids search_timedelta =
     fst (search_try api now keywords seen_ids search_timedelta)"

text \<open>The results the client yielded before it raised or finished.\<close>

fun yielded :: "api_event list \<Rightarrow> paper list" where
  "yielded [] = []"
| "yielded (Raise # rest) = []"
| "yielded (Yield result # rest) = result # yielded rest"

text \<open>Whether the client raised.\<close>

fun raised :: "api_event list \<Rightarrow> bool" where
  "raised [] = False"
| "raised (Raise # rest) = True"
| "raised (Yield result # rest) = raised rest"

section \<open>State store\<close>

text \<open>
  The state file as \<open>load_state\<close> finds it: absent, present but not readable, present
  with text that \<open>json.load\<close> rejects, or present with text that \<open>json.load\<close> reads as
  the given value.
\<close>

datatype state_file = No_file | Unreadable | Not_json | Json json

fun hashable :: "json \<Rightarrow> atom option" where
  "hashable JNull = Some ANone"
| "hashable (JBool b) = Some (ABool b)"
| "hashable (JNum n) = Some (ANum n)"
| "hashable (JStr s) = Some (AStr s)"
| "hashable (JArr xs) = None"
| "hashable (JObj kvs) = None"

text \<open>The elements of a list as set elements; \<open>TypeError\<close> on a list or dict among them.\<close>

fun atoms_of :: "json list \<Rightarrow> py_exception + atom list" where
  "atoms_of [] = Inr []"
| "atoms_of (x # xs) =
     (case hashable x of
        None \<Rightarrow> Inl TypeError
      | Some a \<Rightarrow> (case atoms_of xs of Inl e \<Rightarrow> Inl e | Inr as \<Rightarrow> Inr (a # as)))"

text \<open>The number a bool or an integer stands for; \<open>True\<close> is \<open>1\<close>, \<open>False\<close> is \<open>0\<close>.\<close>

fun num_val :: "atom \<Rightarrow> int option" where
  "num_val (ABool b) = Some (if b then 1 else 0)"
| "num_val (ANum n) = Some n"
| "num_val a = None"

text \<open>Python's \<open>==\<close> on these values: \<open>True == 1\<close> and \<open>False == 0\<close>.\<close>

definition py_eq :: "atom \<Rightarrow> atom \<Rightarrow> bool" where
  "py_eq a b \<longleftrightarrow> a = b \<or> (num_val a \<noteq> None \<and> num_val a = num_val b)"

text \<open>\<open>s.add(a)\<close>: a value equal to an element of the set leaves the set as it is.\<close>

definition py_add :: "pyset \<Rightarrow> atom \<Rightarrow> pyset" where
  "py_add s a = (if ffilter (py_eq a) s = {||} then finsert a s else s)"

text \<open>
  \<open>set(seen_list)\<close>: the elements of a list (the first of equal values is kept), the
  characters of a string, the keys of a dict; anything else is not iterable.
\<close>

fun py_set :: "json \<Rightarrow> py_exception + pyset" where
  "py_set (JArr xs) =
     (case atoms_of xs of Inl e \<Rightarrow> Inl e | Inr as \<Rightarrow> Inr (foldl py_add {||} as))"
| "py_set (JStr s) = Inr (fset_of_list (map (\<lambda>c. AStr [c]) s))"
| "py_set (JObj kvs) = Inr (fset_of_list (map (\<lambda>kv. AStr (fst kv)) kvs))"
| "py_set JNull = Inl TypeError"
| "py_set (JBool b) = Inl TypeError"
| "py_set (JNum n) = Inl TypeError"

text \<open>The dict comprehension of line 61, one item at a time.\<close>

fun state_of_items :: "(string \<times> json) list \<Rightarrow> seen_state \<Rightarrow> py_exception + seen_state" where
  "state_of_items [] state = Inr state"
| "state_of_items ((group_id, seen_list) # rest) state =
     (case py_set seen_list of
        Inl e \<Rightarrow> Inl e
      | Inr seen \<Rightarrow> state_of_items rest (dict_set state group_id seen))"

text \<open>The \<open>try\<close> block of \<open>load_state\<close>.\<close>

fun load_try :: "state_file \<Rightarrow> py_exception + seen_state \<times> bool" where
  "load_try No_file = Inr ([], False)"
| "load_try Unreadable = Inl OSError"
| "load_try Not_json = Inl JSONDecodeError"
| "load_try (Json (JObj items)) =
     (case state_of_items items [] of Inl e \<Rightarrow> Inl e | Inr state \<Rightarrow> Inr (state, True))"
| "load_try (Json data) = Inl AttributeError"

definition load_state :: "state_file \<Rightarrow> seen_state \<times> bool" where
  "load_state file =
     (case load_try file of
        Inl JSONDecodeError \<Rightarrow> ([], False)
      | Inl e \<Rightarrow> ([], False)
      | Inr r \<Rightarrow> r)"

definition is_str :: "atom \<Rightarrow> bool" where
  "is_str a = (case a of AStr s \<Rightarrow> True | _ \<Rightarrow> False)"

definition is_num :: "atom \<Rightarrow> bool" where
  "is_num a = (num_val a \<noteq> None)"

definition str_of :: "atom \<Rightarrow> string" where
  "str_of a = (case a of AStr s \<Rightarrow> s | _ \<Rightarrow> [])"

definition num_of :: "atom \<Rightarrow> int" where
  "num_of a = (case num_val a of Some n \<Rightarrow> n | None \<Rightarrow> 0)"

text \<open>The element of a set of bools and integers that stands for the number \<open>n\<close>.\<close>

definition element_for :: "pyset \<Rightarrow> int \<Rightarrow> atom" where
  "element_for s n =
     (if n = 1 \<and> ABool True |\<in>| s then ABool True
      else if n = 0 \<and> ABool False |\<in>| s then ABool False
      else ANum n)"

text \<open>
  \<open>sorted(list(seen_set))\<close>: strings sort among themselves, bools and integers among
  themselves by their numbers, a single element needs no comparison; any other mixture
  raises \<open>TypeError\<close>.
\<close>

definition py_sorted :: "pyset \<Rightarrow> py_exception + atom list" where
  "py_sorted s =
     (if ffilter is_str s = s then Inr (map AStr (sorted_list_of_fset (str_of |`| s)))
      else if ffilter is_num s = s
        then Inr (map (element_for s) (sorted_list_of_fset (num_of |`| s)))
      else if s = {|ANone|} then Inr [ANone]
      else Inl TypeError)"

fun json_of_atom :: "atom \<Rightarrow> json" where
  "json_of_atom ANone = JNull"
| "json_of_atom (ABool b) = JBool b"
| "json_of_atom (ANum n) = JNum n"
| "json_of_atom (AStr s) = JStr s"

text \<open>The dict comprehension of line 76.\<close>

fun serializable_state :: "seen_state \<Rightarrow> py_exception + (string \<times> json) list" where
  "serializable_state [] = Inr []"
| "serializable_state ((group_id, seen_set) # rest) =
     (case py_sorted seen_set of
        Inl e \<Rightarrow> Inl e
      | Inr ids \<Rightarrow>
          (case serializable_state rest of
             Inl e \<Rightarrow> Inl e
           | Inr items \<Rightarrow> Inr ((group_id, JArr (map json_of_atom ids)) # items)))"

text \<open>
  What the disk does with \<open>open(filepath, 'w')\<close> and \<open>json.dump\<close>: the write goes
  through, \<open>open\<close> raises and leaves the file alone, or the write raises after the file
  was truncated.
\<close>

datatype disk = Write_ok | Open_fails | Write_fails

text \<open>\<open>save_state\<close> returns nothing; the model returns the state file it leaves.\<close>

definition save_state :: "disk \<Rightarrow> state_file \<Rightarrow> seen_state \<Rightarrow> state_file" where
  "save_state d file state =
     (case serializable_state state of
        Inl e \<Rightarrow> file
      | Inr items \<Rightarrow>
          (case d of
             Write_ok \<Rightarrow> Json (JObj items)
           | Open_fails \<Rightarrow> file
           | Write_fails \<Rightarrow> Not_json))"

text \<open>
  The words of the round-trip property: a well-formed state file is a JSON
  object (keys distinct, as in every parsed object) whose values are arrays of strings;
  its canonical form has every array replaced by the sorted sequence of the set of its
  elements. A well-formed state in memory maps distinct group ids to sets of strings.
\<close>

definition is_jstr :: "json \<Rightarrow> bool" where
  "is_jstr j = (case j of JStr s \<Rightarrow> True | _ \<Rightarrow> False)"

definition jstr_of :: "json \<Rightarrow> string" where
  "jstr_of j = (case j of JStr s \<Rightarrow> s | _ \<Rightarrow> [])"

fun is_id_array :: "json \<Rightarrow> bool" where
  "is_id_array (JArr xs) = list_all is_jstr xs"
| "is_id_array j = False"

fun well_formed :: "state_file \<Rightarrow> bool" where
  "well_formed (Json (JObj items)) =
     (distinct (map fst items) \<and> list_all (\<lambda>kv. is_id_array (snd kv)) items)"
| "well_formed file = False"

fun canonical_ids :: "json \<Rightarrow> json" where
  "canonical_ids (JArr xs) = JArr (map JStr (sort (remdups (map jstr_of xs))))"
| "canonical_ids j = j"

fun canonical :: "state_file \<Rightarrow> state_file" where
  "canonical (Json (JObj items)) =
     Json (JObj (map (\<lambda>kv. (fst kv, canonical_ids (snd kv))) items))"
| "canonical file = file"

text \<open>The set an array of strings stands for.\<close>

definition ids_of :: "json \<Rightarrow> pyset" where
  "ids_of j =
     (case j of JArr xs \<Rightarrow> fset_of_list (map (\<lambda>x. AStr (jstr_of x)) xs) | _ \<Rightarrow> {||})"

definition string_state :: "seen_state \<Rightarrow> bool" where
  "string_state state \<longleftrightarrow>
     distinct (map fst state) \<and> list_all (\<lambda>kv. ffilter is_str (snd kv) = snd kv) state"

section \<open>Mail\<close>

text \<open>What the SMTP session (connect, login, send) does.\<close>

datatype smtp_outcome = Delivered | Auth_rejected | Transport_error

text \<open>The transport, told whether the session is \<open>SMTP_SSL\<close> (port 465) or STARTTLS.\<close>

type_synonym smtp = "bool \<Rightarrow> smtp_outcome"

text \<open>Truth of an optional string: \<open>None\<close> and \<open>""\<close> are false.\<close>

definition truthy :: "string option \<Rightarrow> bool" where
  "truthy v = (case v of None \<Rightarrow> False | Some s \<Rightarrow> s \<noteq> [])"

text \<open>
  What building the \<open>EmailMessage\<close> does (lines 135 to 140), given subject, sender,
  receiver and body: \<open>None\<close> when the message is built, the exception when a header
  assignment or \<open>set_content\<close> raises (\<open>ValueError\<close> on a line break in a header, for
  one). It is the library's behaviour, a parameter of the model.
\<close>

type_synonym email_lib = "string \<Rightarrow> string \<Rightarrow> string \<Rightarrow> string \<Rightarrow> py_exception option"

text \<open>The text of a setting that is set.\<close>

definition text_of :: "string option \<Rightarrow> string" where
  "text_of v = (case v of None \<Rightarrow> [] | Some s \<Rightarrow> s)"

text \<open>The \<open>try\<close> block of \<open>send_email\<close>.\<close>

definition send_try :: "smtp \<Rightarrow> int \<Rightarrow> py_exception + bool" where
  "send_try transport port =
     (case transport (port = 465) of
        Delivered \<Rightarrow> Inr True
      | Auth_rejected \<Rightarrow> Inl SMTPAuthenticationError
      | Transport_error \<Rightarrow> Inl SMTPException)"

text \<open>
  \<open>send_email\<close> returns a bool, or raises what the construction of the message
  raised: that part stands before the \<open>try\<close>.
\<close>

definition send_email ::
  "email_lib \<Rightarrow> smtp \<Rightarrow> string \<Rightarrow> string \<Rightarrow> string option \<Rightarrow> string option \<Rightarrow>
   string option \<Rightarrow> string \<Rightarrow> int \<Rightarrow> py_exception + bool"
where
  "send_email lib transport subject body sender password receiver server port =
     (if \<not> (truthy sender \<and> truthy password \<and> truthy receiver \<and> server \<noteq> [] \<and> port \<noteq> 0)
      then Inr False
      else (case lib subject (text_of sender) (text_of receiver) body of
              Some e \<Rightarrow> Inl e
            | None \<Rightarrow>
                (case send_try transport port of
                   Inl SMTPAuthenticationError \<Rightarrow> Inr False
                 | Inl e \<Rightarrow> Inr False
                 | Inr ok \<Rightarrow> Inr ok)))"

section \<open>Configuration\<close>

text \<open>
  The environment after \<open>load_dotenv()\<close>, as \<open>os.environ.items()\<close> lists it. The
  character classes are the ASCII ones.
\<close>

type_synonym environ = "(string \<times> string) list"

definition is_space :: "char \<Rightarrow> bool" where
  "is_space c \<longleftrightarrow> (of_char c :: nat) \<in> {9, 10, 11, 12, 13, 28, 29, 30, 31, 32}"

definition is_digit :: "char \<Rightarrow> bool" where
  "is_digit c \<longleftrightarrow> 48 \<le> (of_char c :: nat) \<and> (of_char c :: nat) \<le> 57"

definition is_upper :: "char \<Rightarrow> bool" where
  "is_upper c \<longleftrightarrow> 65 \<le> (of_char c :: nat) \<and> (of_char c :: nat) \<le> 90"

definition is_lower :: "char \<Rightarrow> bool" where
  "is_lower c \<longleftrightarrow> 97 \<le> (of_char c :: nat) \<and> (of_char c :: nat) \<le> 122"

text \<open>The class \<open>\w\<close>.\<close>

definition is_word :: "char \<Rightarrow> bool" where
  "is_word c \<longleftrightarrow> is_digit c \<or> is_upper c \<or> is_lower c \<or> c = CHR ''_''"

definition to_upper :: "char \<Rightarrow> char" where
  "to_upper c = (if is_lower c then char_of ((of_char c :: nat) - 32) else c)"

text \<open>\<open>s.strip()\<close>\<close>

definition strip :: "string \<Rightarrow> string" where
  "strip s = rev (dropWhile is_space (rev (dropWhile is_space s)))"

text \<open>
  \<open>re.fullmatch(r"KEYWORD_GROUP_(\w+)", key, re.IGNORECASE)\<close>: the text of group 1,
  or \<open>None\<close>.
\<close>

definition match_group_key :: "string \<Rightarrow> string option" where
  "match_group_key key =
     (if map to_upper (take 14 key) = ''KEYWORD_GROUP_''
         \<and> drop 14 key \<noteq> [] \<and> list_all is_word (drop 14 key)
      then Some (drop 14 key) else None)"

record group_info =
  group_name :: string
  group_keywords :: "string list"
  group_keywords_string :: string

text \<open>The loop of lines 18 to 28, one environment entry at a time.\<close>

fun parse_keyword_groups ::
  "environ \<Rightarrow> (string \<times> group_info) list \<Rightarrow> (string \<times> group_info) list"
where
  "parse_keyword_groups [] groups = groups"
| "parse_keyword_groups ((key, val) # rest) groups =
     parse_keyword_groups rest
       (case match_group_key key of
          None \<Rightarrow> groups
        | Some suffix \<Rightarrow>
            if strip val \<noteq> [] then
              (let group_id = ''group_'' @ suffix;
                   kws = filter (\<lambda>k. k \<noteq> []) (map strip (split_sep CHR '','' val))
               in if kws \<noteq> [] then
                    dict_set groups group_id
                      \<lparr>group_name = key, group_keywords = kws, group_keywords_string = val\<rparr>
                  else groups)
            else groups)"

text \<open>
  The digits of an integer literal: single underscores may stand between digits.
  \<open>prev\<close> says whether the character before was a digit.
\<close>

fun parse_digits :: "string \<Rightarrow> int \<Rightarrow> bool \<Rightarrow> int option" where
  "parse_digits [] acc prev = (if prev then Some acc else None)"
| "parse_digits (c # cs) acc prev =
     (if is_digit c then parse_digits cs (acc * 10 + (int (of_char c) - 48)) True
      else if c = CHR ''_'' \<and> prev then parse_digits cs acc False
      else None)"

text \<open>The whitespace \<open>int\<close> skips around a number: tab to carriage return, and space.\<close>

definition is_int_space :: "char \<Rightarrow> bool" where
  "is_int_space c \<longleftrightarrow> (of_char c :: nat) \<in> {9, 10, 11, 12, 13, 32}"

text \<open>
  \<open>int(s)\<close> for a string: surrounding whitespace, an optional sign, decimal digits;
  \<open>ValueError\<close> otherwise. (The limit some Python versions put on the number of
  digits is not modelled.)
\<close>

definition py_int :: "string \<Rightarrow> py_exception + int" where
  "py_int s =
     (case rev (dropWhile is_int_space (rev (dropWhile is_int_space s))) of
        [] \<Rightarrow> Inl ValueError
      | c # cs \<Rightarrow>
          (let neg = (c = CHR ''-'');
               digits = (if c = CHR ''-'' \<or> c = CHR ''+'' then cs else c # cs)
           in case parse_digits digits 0 False of
                None \<Rightarrow> Inl ValueError
              | Some n \<Rightarrow> Inr (if neg then - n else n)))"

record config =
  KEYWORD_GROUPS :: "(string \<times> group_info) list"
  SMTP_SERVER :: string
  SMTP_PORT :: int
  SENDER_EMAIL :: "string option"
  SENDER_PASSWORD :: "string option"
  RECEIVER_EMAIL :: "string option"

text \<open>
  The module-level code of lines 17 to 37. An exception here is raised outside every
  \<open>try\<close>: the process ends before the first cycle.
\<close>

definition startup :: "environ \<Rightarrow> py_exception + config" where
  "startup env =
     (let groups = parse_keyword_groups env [];
          server = (case map_of env ''SMTP_SERVER'' of None \<Rightarrow> ''smtp.gmail.com'' | Some v \<Rightarrow> v)
      in case (case map_of env ''SMTP_PORT'' of None \<Rightarrow> Inr 587 | Some v \<Rightarrow> py_int v) of
           Inl e \<Rightarrow> Inl e
         | Inr port \<Rightarrow>
             Inr \<lparr>KEYWORD_GROUPS = groups, SMTP_SERVER = server, SMTP_PORT = port,
                  SENDER_EMAIL = map_of env ''SENDER_EMAIL'',
                  SENDER_PASSWORD = map_of env ''SENDER_PASSWORD'',
                  RECEIVER_EMAIL = map_of env ''RECEIVER_EMAIL''\<rparr>)"

section \<open>The cycle\<close>

text \<open>
  What the outside does during one cycle. Group ids are the keys of a dict, so a cycle
  handles each id once and the id names the call: \<open>arxiv w g\<close> is the client's
  behaviour on the search for group \<open>g\<close>, \<open>clock w g\<close> the time that search reads,
  \<open>transport w g\<close> the SMTP session of its mail, \<open>today w g\<close> the text of
  \<open>time.strftime('%Y-%m-%d')\<close> then. \<open>strftime w\<close> prints a timestamp
  (\<open>'%Y-%m-%d %H:%M:%S %Z'\<close>), \<open>compose w\<close> is the library that builds the message,
  and \<open>disk w\<close> is what a write of the state file meets.
\<close>

record world =
  arxiv :: "string \<Rightarrow> arxiv_api"
  clock :: "string \<Rightarrow> int"
  compose :: email_lib
  transport :: "string \<Rightarrow> smtp"
  today :: "string \<Rightarrow> string"
  strftime :: "int \<Rightarrow> string"
  disk :: disk

text \<open>
  The calls a cycle makes, in order: a search (group id, keywords, seen ids, window),
  a mail (group id, subject, body, what \<open>send_email\<close> returned or raised), a save of
  the state.
\<close>

datatype call =
    Search_call string "string list" pyset int
  | Email_call string string string "py_exception + bool"
  | Save_call seen_state

text \<open>\<open>str(n)\<close> for a length.\<close>

fun show_nat :: "nat \<Rightarrow> string" where
  "show_nat n =
     (if n < 10 then [char_of (48 + n)]
      else show_nat (n div 10) @ [char_of (48 + n mod 10)])"

definition email_subject :: "string \<Rightarrow> nat \<Rightarrow> string \<Rightarrow> string" where
  "email_subject group_name_display n date =
     ''New arXiv Papers: '' @ group_name_display @ '' ('' @ show_nat n @ '') - '' @ date"

definition newline :: string where
  "newline = [CHR 0x0A]"

definition separator :: string where
  "separator = newline @ newline @ ''---'' @ newline @ newline"

text \<open>The lines one paper adds to the body (lines 216 to 221).\<close>

definition paper_lines :: "(int \<Rightarrow> string) \<Rightarrow> paper \<Rightarrow> string" where
  "paper_lines fmt p =
     ''Title: '' @ title p @ newline
     @ ''Authors: '' @ join '', '' (authors p) @ newline
     @ ''Published: '' @ fmt (published p) @ newline
     @ ''Updated: '' @ fmt (updated p) @ newline
     @ ''Link: '' @ entry_id p @ newline
     @ ''Abstract: '' @ summary p @ separator"

definition email_body ::
  "(int \<Rightarrow> string) \<Rightarrow> string \<Rightarrow> string \<Rightarrow> paper list \<Rightarrow> string"
where
  "email_body fmt group_name_display keywords_string_display new_papers =
     ''Found '' @ show_nat (length new_papers) @ '' new paper(s) for keyword group ''
     @ [CHR 0x27] @ group_name_display @ [CHR 0x27]
     @ '' ('' @ keywords_string_display @ ''):'' @ separator
     @ concat (map (paper_lines fmt) new_papers)"

text \<open>The loop of lines 213 to 215: the ids of the papers found.\<close>

definition newly_found_ids :: "paper list \<Rightarrow> pyset" where
  "newly_found_ids new_papers = fset_of_list (map (\<lambda>p. AStr (paper_id p)) new_papers)"

text \<open>The variables of the main loop that outlive one group, and the calls made.\<close>

record loop =
  current_state :: seen_state
  state_changed :: bool
  calls :: "call list"

text \<open>The choice of lines 196 to 200.\<close>

definition search_window :: "bool \<Rightarrow> int" where
  "search_window state_file_existed =
     (if \<not> state_file_existed then timedelta_days 7
      else timedelta_hours CHECK_INTERVAL_HOURS)"

text \<open>
  Lines 207 to 235: what the loop body does with the result of the search. It returns
  the variables of the loop as the body leaves them, and the exception that
  \<open>send_email\<close> raised, if it did.
\<close>

definition notify_group ::
  "world \<Rightarrow> config \<Rightarrow> loop \<Rightarrow> string \<times> group_info \<Rightarrow> pyset \<Rightarrow> paper list \<Rightarrow>
   loop \<times> py_exception option"
where
  "notify_group w cfg l g group_seen_ids new_papers =
     (let group_id = fst g;
          group_name_display = group_name (snd g);
          keywords_string_display = group_keywords_string (snd g)
      in if new_papers \<noteq> [] then
           (let subject =
                  email_subject group_name_display (length new_papers) (today w group_id);
                body =
                  email_body (strftime w) group_name_display keywords_string_display
                    new_papers
            in case send_email (compose w) (transport w group_id) subject body
                      (SENDER_EMAIL cfg) (SENDER_PASSWORD cfg) (RECEIVER_EMAIL cfg)
                      (SMTP_SERVER cfg) (SMTP_PORT cfg) of
                 Inl e \<Rightarrow>
                   (l\<lparr>calls := calls l @ [Email_call group_id subject body (Inl e)]\<rparr>, Some e)
               | Inr email_sent \<Rightarrow>
                   (let l2 = l\<lparr>calls := calls l @
                                 [Email_call group_id subject body (Inr email_sent)]\<rparr>
                    in if email_sent then
                         (l2\<lparr>current_state :=
                               dict_set (current_state l2) group_id
                                 (group_seen_ids |\<union>| newly_found_ids new_papers),
                             state_changed := True\<rparr>, None)
                       else (l2, None)))
         else (l, None))"

text \<open>The body of the \<open>for\<close> loop over \<open>KEYWORD_GROUPS.items()\<close> (lines 185 to 235).\<close>

definition process_group ::
  "world \<Rightarrow> config \<Rightarrow> bool \<Rightarrow> loop \<Rightarrow> string \<times> group_info \<Rightarrow> loop \<times> py_exception option"
where
  "process_group w cfg state_file_existed l g =
     (let group_id = fst g;
          kws = group_keywords (snd g);
          group_seen_ids = dict_get (current_state l) group_id;
          window = search_window state_file_existed;
          new_papers =
            search_new_papers (arxiv w group_id) (clock w group_id) kws group_seen_ids window;
          l1 = l\<lparr>calls := calls l @ [Search_call group_id kws group_seen_ids window]\<rparr>
      in notify_group w cfg l1 g group_seen_ids new_papers)"

text \<open>The \<open>for\<close> loop: an exception out of the body ends it.\<close>

fun process_groups ::
  "world \<Rightarrow> config \<Rightarrow> bool \<Rightarrow> loop \<Rightarrow> (string \<times> group_info) list \<Rightarrow>
   loop \<times> py_exception option"
where
  "process_groups w cfg state_file_existed l [] = (l, None)"
| "process_groups w cfg state_file_existed l (g # gs) =
     (case process_group w cfg state_file_existed l g of
        (l', Some e) \<Rightarrow> (l', Some e)
      | (l', None) \<Rightarrow> process_groups w cfg state_file_existed l' gs)"

text \<open>
  What one cycle leaves: the state file, \<open>current_state\<close> at the end of the cycle
  (\<open>None\<close> when the cycle loaded no state), the calls made, and the exception that the
  handler of line 243 caught, if the cycle was abandoned.
\<close>

record outcome =
  file_after :: state_file
  memory_after :: "seen_state option"
  trace :: "call list"
  abandoned :: "py_exception option"

text \<open>One pass of the \<open>while True\<close> loop, up to the sleep (lines 174 to 245).\<close>

definition cycle :: "world \<Rightarrow> config \<Rightarrow> state_file \<Rightarrow> outcome" where
  "cycle w cfg file =
     (if KEYWORD_GROUPS cfg = [] then
        \<lparr>file_after = file, memory_after = None, trace = [], abandoned = None\<rparr>
      else
        (let loaded = load_state file;
             r = process_groups w cfg (snd loaded)
                   \<lparr>current_state = fst loaded, state_changed = False, calls = []\<rparr>
                   (KEYWORD_GROUPS cfg);
             l = fst r
         in case snd r of
              Some e \<Rightarrow>
                \<lparr>file_after = file, memory_after = Some (current_state l), trace = calls l,
                 abandoned = Some e\<rparr>
            | None \<Rightarrow>
                if state_changed l then
                  \<lparr>file_after = save_state (disk w) file (current_state l),
                   memory_after = Some (current_state l),
                   trace = calls l @ [Save_call (current_state l)], abandoned = None\<rparr>
                else
                  \<lparr>file_after = file, memory_after = Some (current_state l),
                   trace = calls l, abandoned = None\<rparr>))"

text \<open>Readers of a trace.\<close>

fun is_email :: "call \<Rightarrow> bool" where
  "is_email (Email_call g subject body sent) = True"
| "is_email c = False"

fun is_save :: "call \<Rightarrow> bool" where
  "is_save (Save_call state) = True"
| "is_save c = False"

text \<open>The searches of a trace: the group id and the window of each.\<close>

fun searches :: "call list \<Rightarrow> (string \<times> int) list" where
  "searches [] = []"
| "searches (Search_call g kws seen window # cs) = (g, window) # searches cs"
| "searches (c # cs) = searches cs"

section \<open>Example data\<close>

definition example_paper :: "string \<Rightarrow> int \<Rightarrow> int \<Rightarrow> paper" where
  "example_paper link p u =
     \<lparr>entry_id = link, title = ''T'', authors = [''A. Author'', ''B. Author''],
      published = p, updated = u, summary = ''S''\<rparr>"

text \<open>A time in the year 2025, and results published an hour before it.\<close>

definition example_now :: int where
  "example_now = 63900000000000000"

definition example_results :: "api_event list" where
  "example_results =
     [Yield (example_paper ''http://arxiv.org/abs/A'' (example_now - 3600000000)
               (example_now - 3600000000)),
      Yield (example_paper ''http://arxiv.org/abs/B'' (example_now - 3600000000)
               (example_now - 3600000000))]"

text \<open>A world whose client yields the given results and whose mail has the given fate.\<close>

text \<open>A library that refuses a line break in a header.\<close>

definition example_lib :: email_lib where
  "example_lib subject sender receiver body =
     (if CHR 0x0A \<in> set subject \<union> set sender \<union> set receiver then Some ValueError
      else None)"

definition example_world :: "api_event list \<Rightarrow> smtp_outcome \<Rightarrow> world" where
  "example_world results mail =
     \<lparr>arxiv = (\<lambda>g q. results), clock = (\<lambda>g. example_now), compose = example_lib,
      transport = (\<lambda>g ssl. mail),
      today = (\<lambda>g. ''2025-01-01''), strftime = (\<lambda>t. ''2025-01-01 00:00:00 UTC''),
      disk = Write_ok\<rparr>"

definition example_group :: "string \<times> group_info" where
  "example_group =
     (''group_ml'',
      \<lparr>group_name = ''KEYWORD_GROUP_ml'', group_keywords = [''diffusion'', ''sampling''],
       group_keywords_string = ''diffusion, sampling''\<rparr>)"

definition example_config :: config where
  "example_config =
     \<lparr>KEYWORD_GROUPS = [example_group], SMTP_SERVER = ''smtp.gmail.com'', SMTP_PORT = 587,
      SENDER_EMAIL = Some ''me@example.org'', SENDER_PASSWORD = Some ''secret'',
      RECEIVER_EMAIL = Some ''you@example.org''\<rparr>"

text \<open>A result three days old.\<close>

definition example_old_results :: "api_event list" where
  "example_old_results =
     [Yield (example_paper ''http://arxiv.org/abs/O'' (example_now - 259200000000)
               (example_now - 259200000000))]"

text \<open>Two groups, and a sender address that ends in a line break.\<close>

definition example_group_b :: "string \<times> group_info" where
  "example_group_b =
     (''group_cv'',
      \<lparr>group_name = ''KEYWORD_GROUP_cv'', group_keywords = [''vision''],
       group_keywords_string = ''vision''\<rparr>)"

definition example_bad_config :: config where
  "example_bad_config =
     \<lparr>KEYWORD_GROUPS = [example_group, example_group_b], SMTP_SERVER = ''smtp.gmail.com'',
      SMTP_PORT = 587, SENDER_EMAIL = Some (''me@example.org'' @ [CHR 0x0A]),
      SENDER_PASSWORD = Some ''secret'', RECEIVER_EMAIL = Some ''you@example.org''\<rparr>"

text \<open>Two versions of one paper.\<close>

definition example_v1 :: paper where
  "example_v1 = example_paper ''http://arxiv.org/abs/2301.12345v1'' (example_now - 3600000000)
     (example_now - 3600000000)"

definition example_v2 :: paper where
  "example_v2 = example_paper ''http://arxiv.org/abs/2301.12345v2'' (example_now - 3600000000)
     (example_now - 1800000000)"

definition example_loop :: "seen_state \<Rightarrow> loop" where
  "example_loop state = \<lparr>current_state = state, state_changed = False, calls = []\<rparr>"

text \<open>A state file with an unsorted array that repeats an id, and a state in memory.\<close>

definition example_file :: state_file where
  "example_file = Json (JObj [(''group_ml'', JArr [JStr ''B'', JStr ''A'', JStr ''B''])])"

definition example_state :: seen_state where
  "example_state = [(''group_ml'', {|AStr ''C'', AStr ''A''|}), (''group_cv'', {||})]"

section \<open>Search: the filter\<close>

declare show_nat.simps [simp del]

lemma search_loop_filter:
  "search_loop cutoff seen evs acc =
     (acc @ filter (is_new cutoff seen) (yielded evs),
      if raised evs then Some ArxivError else None)"
  by (induction cutoff seen evs acc rule: search_loop.induct) simp_all

lemma is_new_fun:
  "is_new cutoff seen =
     (\<lambda>r. (cutoff \<le> published r \<or> cutoff \<le> updated r) \<and> AStr (paper_id r) |\<notin>| seen)"
  by (rule ext) (simp add: is_new_def)

lemma search_new_papers_in_range:
  assumes "0 \<le> now - window" and "now - window \<le> datetime_max"
  shows "search_new_papers api now kws seen window =
           filter (is_new (now - window) seen) (yielded (api (build_query kws)))"
  using assms
  by (simp add: search_new_papers_def search_try_def datetime_sub_def search_loop_filter)

lemma search_new_papers_unseen:
  "p \<in> set (search_new_papers api now kws seen window) \<Longrightarrow> AStr (paper_id p) |\<notin>| seen"
  by (auto simp: search_new_papers_def search_try_def search_loop_filter is_new_def
      split: sum.splits)

lemma example_cutoff_in_range: "(1000::int) - 100 \<le> datetime_max"
  by (simp add: datetime_max_def microseconds_per_hour_def)

text \<open>
  C3: with the cutoff \<open>now - window\<close> (a valid \<open>datetime\<close>), the search returns, in
  the order received, exactly the results the client yielded for which the published
  or the updated time is at or after the cutoff and whose paper id is not in the seen
  set.
\<close>

theorem search_includes_iff:
  assumes "0 \<le> now - window" and "now - window \<le> datetime_max"
  shows "search_new_papers api now kws seen window =
           filter (\<lambda>r. (now - window \<le> published r \<or> now - window \<le> updated r)
                        \<and> AStr (paper_id r) |\<notin>| seen)
             (yielded (api (build_query kws)))"
  using search_new_papers_in_range [OF assms, of api kws seen] by (simp add: is_new_fun)

theorem search_includes_iff_witness:
  "(0::int) \<le> 1000 - 100 \<and> (1000::int) - 100 \<le> datetime_max
   \<and> search_new_papers
        (\<lambda>q. [Yield (example_paper ''http://arxiv.org/abs/1v1'' 950 950),
              Yield (example_paper ''http://arxiv.org/abs/2v1'' 10 20),
              Yield (example_paper ''http://arxiv.org/abs/3v2'' 10 901),
              Yield (example_paper ''http://arxiv.org/abs/4v1'' 990 990)])
        1000 [''diffusion''] {|AStr ''4v1''|} 100
      = [example_paper ''http://arxiv.org/abs/1v1'' 950 950,
         example_paper ''http://arxiv.org/abs/3v2'' 10 901]"
proof -
  have a: "(0::int) \<le> 1000 - 100" by simp
  note b = example_cutoff_in_range
  show ?thesis
    using a b
      search_includes_iff [OF a b,
        of "\<lambda>q. [Yield (example_paper ''http://arxiv.org/abs/1v1'' 950 950),
              Yield (example_paper ''http://arxiv.org/abs/2v1'' 10 20),
              Yield (example_paper ''http://arxiv.org/abs/3v2'' 10 901),
              Yield (example_paper ''http://arxiv.org/abs/4v1'' 990 990)]"
           "[''diffusion'']" "{|AStr ''4v1''|}"]
    by (simp add: example_paper_def paper_id_def)
qed

section \<open>Search: failures\<close>

text \<open>
  C6, as the claim states it, fails: the client yields one recent, unseen result and
  then raises; the search returns that result, not the empty list.
\<close>

theorem search_failure_partial_counterexample:
  "raised [Yield (example_paper ''http://arxiv.org/abs/1v1'' 950 950), Raise]
   \<and> search_new_papers
        (\<lambda>q. [Yield (example_paper ''http://arxiv.org/abs/1v1'' 950 950), Raise])
        1000 [''diffusion''] {||} 100
      = [example_paper ''http://arxiv.org/abs/1v1'' 950 950]"
  by (simp add: search_new_papers_def search_try_def datetime_sub_def datetime_max_def
      microseconds_per_hour_def is_new_def example_paper_def)

text \<open>
  C6, amended: when the client raises during the search call, the \<open>except\<close> clause
  catches the exception (the search returns a list, it raises nothing), and the list
  returned holds the candidates accepted among the results received before the
  failure; it is empty when the failure comes before the first result, or when the
  cutoff itself could not be computed.
\<close>

theorem search_failure_caught:
  assumes "raised (api (build_query kws))"
  shows "snd (search_try api now kws seen window) \<noteq> None
     \<and> search_new_papers api now kws seen window =
         (if 0 \<le> now - window \<and> now - window \<le> datetime_max
          then filter (\<lambda>r. (now - window \<le> published r \<or> now - window \<le> updated r)
                           \<and> AStr (paper_id r) |\<notin>| seen)
                 (yielded (api (build_query kws)))
          else [])"
  using assms
  by (auto simp add: search_new_papers_def search_try_def datetime_sub_def search_loop_filter
      is_new_fun)

theorem search_failure_caught_witness:
  "raised [Yield (example_paper ''http://arxiv.org/abs/2v1'' 10 20), Raise,
           Yield (example_paper ''http://arxiv.org/abs/1v1'' 950 950)]
   \<and> snd (search_try
        (\<lambda>q. [Yield (example_paper ''http://arxiv.org/abs/2v1'' 10 20), Raise,
              Yield (example_paper ''http://arxiv.org/abs/1v1'' 950 950)])
        1000 [''diffusion''] {||} 100) \<noteq> None
   \<and> search_new_papers
        (\<lambda>q. [Yield (example_paper ''http://arxiv.org/abs/2v1'' 10 20), Raise,
              Yield (example_paper ''http://arxiv.org/abs/1v1'' 950 950)])
        1000 [''diffusion''] {||} 100 = []"
  using search_failure_caught
      [where api = "\<lambda>q. [Yield (example_paper ''http://arxiv.org/abs/2v1'' 10 20), Raise,
              Yield (example_paper ''http://arxiv.org/abs/1v1'' 950 950)]"
         and kws = "[''diffusion'']" and now = 1000 and seen = "{||}" and window = 100]
    example_cutoff_in_range
  by (simp add: example_paper_def)

section \<open>State store: loading\<close>

text \<open>
  C5: \<open>load_state\<close> returns the empty dict and \<open>False\<close> when the state file is absent
  and when its text does not parse; it returns (it is a total function that yields a
  pair, no exception), and the two results are the same value.
\<close>

theorem load_state_absent_or_unparseable:
  "load_state No_file = ([], False) \<and> load_state Not_json = ([], False)
   \<and> load_state No_file = load_state Not_json"
  by (simp add: load_state_def)

section \<open>Startup\<close>

text \<open>
  C7: the claim holds that no configuration crashes the process. The code parses
  \<open>SMTP_PORT\<close> with \<open>int\<close> at module level, outside every \<open>try\<close>: with
  \<open>SMTP_PORT=abc\<close> the startup raises \<open>ValueError\<close>.
\<close>

theorem startup_bad_port: "startup [(''SMTP_PORT'', ''abc'')] = Inl ValueError"
  by (simp add: startup_def py_int_def is_int_space_def is_digit_def)

section \<open>State store: the round trip\<close>

lemma update_absent: "k \<notin> fst ` set al \<Longrightarrow> AList.update k v al = al @ [(k, v)]"
  by (induction al) auto

lemma atoms_of_strings:
  "list_all is_jstr xs \<Longrightarrow> atoms_of xs = Inr (map (\<lambda>x. AStr (jstr_of x)) xs)"
  by (induction xs) (auto simp: is_jstr_def jstr_of_def split: json.splits)

lemma py_add_string: "py_add s (AStr x) = finsert (AStr x) s"
proof (cases "ffilter (py_eq (AStr x)) s = {||}")
  case True
  then show ?thesis by (simp add: py_add_def)
next
  case False
  then have "\<exists>b. b |\<in>| ffilter (py_eq (AStr x)) s" by (simp add: fset_eq_iff)
  then have "AStr x |\<in>| s" by (auto simp: py_eq_def)
  with False show ?thesis by (auto simp: py_add_def)
qed

lemma foldl_py_add_strings:
  "foldl py_add s (map (\<lambda>x. AStr (f x)) xs) = s |\<union>| fset_of_list (map (\<lambda>x. AStr (f x)) xs)"
  by (induction xs arbitrary: s) (auto simp: py_add_string)

lemma py_set_id_array: "is_id_array j \<Longrightarrow> py_set j = Inr (ids_of j)"
  by (cases j) (simp_all add: atoms_of_strings ids_of_def foldl_py_add_strings)

lemma state_of_items_well_formed:
  "distinct (map fst items) \<Longrightarrow> list_all (\<lambda>kv. is_id_array (snd kv)) items \<Longrightarrow>
   fst ` set acc \<inter> fst ` set items = {} \<Longrightarrow>
   state_of_items items acc = Inr (acc @ map (\<lambda>kv. (fst kv, ids_of (snd kv))) items)"
proof (induction items arbitrary: acc)
  case Nil
  then show ?case by simp
next
  case (Cons kv items)
  obtain g j where kv: "kv = (g, j)" by (cases kv)
  have absent: "g \<notin> fst ` set acc" using Cons.prems(3) kv by auto
  have "fst ` set (acc @ [(g, ids_of j)]) \<inter> fst ` set items = {}"
    using Cons.prems(1,3) kv by auto
  with Cons show ?case
    by (simp add: kv py_set_id_array dict_set_def update_absent [OF absent])
qed

lemma sorted_list_of_fset_of_list:
  "sorted_list_of_fset (fset_of_list xs) = sort (remdups xs)"
  by (simp add: sorted_list_of_fset.rep_eq fset_of_list.rep_eq sorted_list_of_set_sort_remdups)

lemma strs_image: "ffilter is_str (AStr |`| S) = AStr |`| S"
  by (auto simp: is_str_def)

lemma str_of_AStr: "str_of \<circ> AStr = id"
  by (rule ext) (simp add: str_of_def)

lemma py_sorted_strings:
  "py_sorted (AStr |`| S) = Inr (map AStr (sorted_list_of_fset S))"
  by (simp add: py_sorted_def strs_image str_of_AStr)

lemma all_strings_image:
  assumes "ffilter is_str S = S"
  shows "AStr |`| (str_of |`| S) = S"
proof -
  have "\<And>a. a |\<in>| S \<Longrightarrow> AStr (str_of a) = a"
  proof -
    fix a assume "a |\<in>| S"
    then have "a |\<in>| ffilter is_str S" using assms by simp
    then have "is_str a" by simp
    then show "AStr (str_of a) = a" by (cases a) (simp_all add: is_str_def str_of_def)
  qed
  then have "(\<lambda>a. AStr (str_of a)) |`| S = S"
    by (auto simp: fimage_iff intro!: fset_eqI)
  then show ?thesis by (simp add: comp_def)
qed

lemma sorted_list_of_fset_canonical:
  "sort (remdups (sorted_list_of_fset S)) = sorted_list_of_fset S"
  by (simp add: sorted_list_of_fset.rep_eq sorted_sort_id)

lemma serializable_state_strings:
  "list_all (\<lambda>kv. ffilter is_str (snd kv) = snd kv) state \<Longrightarrow>
   serializable_state state =
     Inr (map (\<lambda>kv. (fst kv, JArr (map JStr (sorted_list_of_fset (str_of |`| snd kv))))) state)"
proof (induction state)
  case Nil
  then show ?case by simp
next
  case (Cons kv state)
  obtain g S where kv: "kv = (g, S)" by (cases kv)
  from Cons.prems have S: "ffilter is_str S = S" by (simp add: kv)
  have "py_sorted S = Inr (map AStr (sorted_list_of_fset (str_of |`| S)))"
    using py_sorted_strings [of "str_of |`| S"] by (simp only: all_strings_image [OF S])
  with Cons show ?case by (simp add: kv comp_def)
qed

lemma ids_of_sorted:
  "ids_of (JArr (map JStr (sorted_list_of_fset T))) = AStr |`| T"
  by (simp add: ids_of_def comp_def jstr_of_def)



lemma load_well_formed:
  assumes "well_formed (Json (JObj items))"
  shows "load_state (Json (JObj items)) = (map (\<lambda>kv. (fst kv, ids_of (snd kv))) items, True)"
  using assms state_of_items_well_formed [of items "[]"]
  by (simp add: load_state_def)

lemma py_sorted_ids_of:
  assumes "is_id_array j"
  shows "\<exists>ids. py_sorted (ids_of j) = Inr ids \<and> JArr (map json_of_atom ids) = canonical_ids j"
proof -
  from assms obtain xs where j: "j = JArr xs" by (cases j) simp_all
  have "ids_of j = AStr |`| fset_of_list (map jstr_of xs)"
    by (simp add: j ids_of_def comp_def)
  then have "py_sorted (ids_of j) = Inr (map AStr (sort (remdups (map jstr_of xs))))"
    by (simp only: py_sorted_strings sorted_list_of_fset_of_list)
  then show ?thesis by (simp add: j comp_def)
qed

lemma serializable_loaded:
  "list_all (\<lambda>kv. is_id_array (snd kv)) items \<Longrightarrow>
   serializable_state (map (\<lambda>kv. (fst kv, ids_of (snd kv))) items) =
     Inr (map (\<lambda>kv. (fst kv, canonical_ids (snd kv))) items)"
proof (induction items)
  case Nil
  then show ?case by simp
next
  case (Cons kv items)
  from Cons.prems have "is_id_array (snd kv)" by simp
  from py_sorted_ids_of [OF this] obtain ids where
    "py_sorted (ids_of (snd kv)) = Inr ids" "JArr (map json_of_atom ids) = canonical_ids (snd kv)"
    by blast
  with Cons show ?case by simp
qed

lemma save_load_well_formed:
  assumes "well_formed f"
  shows "snd (load_state f) \<and> save_state Write_ok f (fst (load_state f)) = canonical f"
proof -
  from assms obtain items where f: "f = Json (JObj items)"
    by (rule well_formed.elims) simp_all
  from assms have "list_all (\<lambda>kv. is_id_array (snd kv)) items" by (simp add: f)
  then show ?thesis
    using assms by (simp add: f load_well_formed save_state_def serializable_loaded)
qed

lemma reload_entry:
  assumes "ffilter is_str (snd kv) = snd kv"
  shows "(fst kv, ids_of (JArr (map JStr (sorted_list_of_fset (str_of |`| snd kv))))) = kv"
proof -
  have "ids_of (JArr (map JStr (sorted_list_of_fset (str_of |`| snd kv)))) = snd kv"
    by (simp only: ids_of_sorted all_strings_image [OF assms])
  then show ?thesis by (cases kv) simp
qed

lemma load_save_strings:
  assumes "string_state s"
  shows "load_state (save_state Write_ok old s) = (s, True)
     \<and> well_formed (save_state Write_ok old s)
     \<and> canonical (save_state Write_ok old s) = save_state Write_ok old s"
proof -
  let ?items = "map (\<lambda>kv. (fst kv, JArr (map JStr (sorted_list_of_fset (str_of |`| snd kv))))) s"
  from assms have strs: "list_all (\<lambda>kv. ffilter is_str (snd kv) = snd kv) s"
    and dist: "distinct (map fst s)" by (simp_all add: string_state_def)
  have saved: "save_state Write_ok old s = Json (JObj ?items)"
    by (simp add: save_state_def serializable_state_strings [OF strs])
  have arrays: "list_all (\<lambda>kv. is_id_array (snd kv)) ?items"
    by (simp add: list_all_iff is_jstr_def)
  have wf: "well_formed (Json (JObj ?items))"
    using dist arrays by (simp add: comp_def)
  have "map (\<lambda>kv. (fst kv, ids_of (snd kv))) ?items = map (\<lambda>kv. (fst kv, snd kv)) s"
    using strs by (induction s) (simp_all add: reload_entry del: fimage_fimage)
  then have loaded: "load_state (Json (JObj ?items)) = (s, True)"
    by (simp add: load_well_formed [OF wf])
  have "map (\<lambda>kv. (fst kv, canonical_ids (snd kv))) ?items = ?items"
    by (simp add: comp_def jstr_of_def sorted_list_of_fset_canonical)
  then have "canonical (Json (JObj ?items)) = Json (JObj ?items)" by simp
  with saved wf loaded show ?thesis by simp
qed

lemma example_file_canonical:
  "canonical example_file = Json (JObj [(''group_ml'', JArr [JStr ''A'', JStr ''B''])])"
  by code_simp

lemma example_state_saved:
  "save_state Write_ok No_file example_state =
     Json (JObj [(''group_ml'', JArr [JStr ''A'', JStr ''C'']), (''group_cv'', JArr [])])"
  by code_simp

text \<open>
  C8: when the write goes through, saving the state loaded from a well-formed state
  file (\<open>load_state\<close> reports that it existed) writes the file's canonical form: the
  same keys in the same order, every array replaced by the sorted sequence of the set
  of its ids. And for every state in memory that maps distinct group ids to sets of
  strings, loading what \<open>save_state\<close> wrote returns that state with \<open>True\<close>; the file
  written is well-formed and is its own canonical form. (The file is compared as the
  value \<open>json.load\<close> reads from it.)
\<close>

theorem state_round_trip:
  "(well_formed f \<longrightarrow>
      snd (load_state f) \<and> save_state Write_ok f (fst (load_state f)) = canonical f)
   \<and> (string_state s \<longrightarrow>
        load_state (save_state Write_ok old s) = (s, True)
        \<and> well_formed (save_state Write_ok old s)
        \<and> canonical (save_state Write_ok old s) = save_state Write_ok old s)"
  using save_load_well_formed [of f] load_save_strings [of s old] by blast

theorem state_round_trip_witness:
  "well_formed example_file
   \<and> load_state example_file = ([(''group_ml'', {|AStr ''A'', AStr ''B''|})], True)
   \<and> save_state Write_ok example_file (fst (load_state example_file))
       = Json (JObj [(''group_ml'', JArr [JStr ''A'', JStr ''B''])])
   \<and> string_state example_state
   \<and> save_state Write_ok No_file example_state
       = Json (JObj [(''group_ml'', JArr [JStr ''A'', JStr ''C'']), (''group_cv'', JArr [])])
   \<and> load_state (save_state Write_ok No_file example_state) = (example_state, True)"
proof -
  have wf: "well_formed example_file"
    by (simp add: example_file_def is_jstr_def)
  have ld: "load_state example_file = ([(''group_ml'', {|AStr ''A'', AStr ''B''|})], True)"
    by (auto simp add: example_file_def load_state_def dict_set_def py_add_string)
  have ss: "string_state example_state"
    by (auto simp add: example_state_def string_state_def is_str_def)
  show ?thesis
    using state_round_trip [of example_file example_state No_file] wf ld ss
      example_file_canonical example_state_saved
    by simp
qed

section \<open>The cycle: one group\<close>

lemma dict_get_dict_set:
  "dict_get (dict_set d k v) k' = (if k' = k then v else dict_get d k')"
  by (simp add: dict_get_def dict_set_def update_conv')

lemma map_of_dict_set: "map_of (dict_set d k v) = (map_of d)(k \<mapsto> v)"
  by (simp add: dict_set_def update_conv')

lemma notify_group_nothing: "notify_group w cfg l g seen [] = (l, None)"
  by (simp add: notify_group_def)

lemma notify_group_news:
  fixes w cfg l g seen new
  defines "subject \<equiv> email_subject (group_name (snd g)) (length new) (today w (fst g))"
  defines "body \<equiv> email_body (strftime w) (group_name (snd g)) (group_keywords_string (snd g)) new"
  assumes "new \<noteq> []"
  shows "notify_group w cfg l g seen new =
     (case send_email (compose w) (transport w (fst g)) subject body (SENDER_EMAIL cfg)
             (SENDER_PASSWORD cfg) (RECEIVER_EMAIL cfg) (SMTP_SERVER cfg) (SMTP_PORT cfg) of
        Inl e \<Rightarrow> (l\<lparr>calls := calls l @ [Email_call (fst g) subject body (Inl e)]\<rparr>, Some e)
      | Inr sent \<Rightarrow>
          (\<lparr>current_state =
               (if sent then dict_set (current_state l) (fst g) (seen |\<union>| newly_found_ids new)
                else current_state l),
             state_changed = (sent \<or> state_changed l),
             calls = calls l @ [Email_call (fst g) subject body (Inr sent)]\<rparr>, None))"
  using assms by (simp add: notify_group_def Let_def split: sum.splits)

lemma process_group_notify:
  "process_group w cfg ex l g =
     notify_group w cfg
       (l\<lparr>calls := calls l @
            [Search_call (fst g) (group_keywords (snd g)) (dict_get (current_state l) (fst g))
               (search_window ex)]\<rparr>)
       g (dict_get (current_state l) (fst g))
       (search_new_papers (arxiv w (fst g)) (clock w (fst g)) (group_keywords (snd g))
          (dict_get (current_state l) (fst g)) (search_window ex))"
  by (simp add: process_group_def Let_def)

lemma process_group_no_news:
  assumes "search_new_papers (arxiv w (fst g)) (clock w (fst g)) (group_keywords (snd g))
             (dict_get (current_state l) (fst g)) (search_window ex) = []"
  shows "process_group w cfg ex l g =
           (l\<lparr>calls := calls l @
               [Search_call (fst g) (group_keywords (snd g)) (dict_get (current_state l) (fst g))
                  (search_window ex)]\<rparr>, None)"
  by (simp add: process_group_notify assms notify_group_nothing)

text \<open>The state after one group: as it was, or the group's entry grown by new ids.\<close>

lemma process_group_state:
  fixes w cfg ex l g
  defines "seen \<equiv> dict_get (current_state l) (fst g)"
  defines "new \<equiv> search_new_papers (arxiv w (fst g)) (clock w (fst g)) (group_keywords (snd g))
                    seen (search_window ex)"
  defines "r \<equiv> process_group w cfg ex l g"
  shows "(current_state (fst r) = current_state l \<and> state_changed (fst r) = state_changed l)
     \<or> (new \<noteq> [] \<and> snd r = None \<and> state_changed (fst r)
        \<and> current_state (fst r) =
            dict_set (current_state l) (fst g) (seen |\<union>| newly_found_ids new))"
proof (cases "new = []")
  case True
  then show ?thesis
    unfolding r_def new_def seen_def by (simp add: process_group_no_news)
next
  case False
  then show ?thesis
    unfolding r_def new_def seen_def
    by (simp add: process_group_notify notify_group_news split: sum.splits)
qed


lemma example_window_in_range:
  "0 \<le> example_now - search_window ex \<and> example_now - search_window ex \<le> datetime_max"
  by (simp add: example_now_def search_window_def timedelta_days_def timedelta_hours_def
      CHECK_INTERVAL_HOURS_def microseconds_per_hour_def datetime_max_def)

lemma example_search:
  assumes "AStr ''A'' |\<notin>| seen" and "AStr ''B'' |\<notin>| seen"
  shows "search_new_papers (\<lambda>q. example_results) example_now kws seen (search_window ex) =
     yielded example_results"
proof -
  have "3600000000 \<le> search_window ex"
    by (simp add: search_window_def timedelta_days_def timedelta_hours_def
        CHECK_INTERVAL_HOURS_def microseconds_per_hour_def)
  then show ?thesis
    using example_window_in_range [of ex] assms
    by (simp add: search_new_papers_in_range is_new_fun example_results_def example_paper_def
        paper_id_def)
qed

lemma example_send:
  "send_email example_lib (\<lambda>ssl. mail) subject body (SENDER_EMAIL example_config)
     (SENDER_PASSWORD example_config) (RECEIVER_EMAIL example_config)
     (SMTP_SERVER example_config) (SMTP_PORT example_config) =
   (if CHR 0x0A \<in> set subject then Inl ValueError else Inr (mail = Delivered))"
  by (cases mail)
     (simp_all add: send_email_def send_try_def example_config_def truthy_def text_of_def
        example_lib_def)

lemma example_subject:
  "CHR 0x0A \<notin> set (email_subject ''KEYWORD_GROUP_ml'' (Suc (Suc 0)) ''2025-01-01'')"
  by code_simp

lemma example_subject_one:
  "CHR 0x0A \<notin> set (email_subject ''KEYWORD_GROUP_ml'' (Suc 0) ''2025-01-01'')"
  by code_simp

lemma example_world_fields:
  "arxiv (example_world results mail) = (\<lambda>g q. results)"
  "clock (example_world results mail) = (\<lambda>g. example_now)"
  "compose (example_world results mail) = example_lib"
  "transport (example_world results mail) = (\<lambda>g ssl. mail)"
  "today (example_world results mail) = (\<lambda>g. ''2025-01-01'')"
  "strftime (example_world results mail) = (\<lambda>t. ''2025-01-01 00:00:00 UTC'')"
  "disk (example_world results mail) = Write_ok"
  by (simp_all add: example_world_def)

lemma example_group_fields:
  "fst example_group = ''group_ml''"
  "group_name (snd example_group) = ''KEYWORD_GROUP_ml''"
  "group_keywords (snd example_group) = [''diffusion'', ''sampling'']"
  "group_keywords_string (snd example_group) = ''diffusion, sampling''"
  by (simp_all add: example_group_def)

lemma example_loop_fields:
  "current_state (example_loop state) = state"
  "state_changed (example_loop state) = False"
  "calls (example_loop state) = []"
  by (simp_all add: example_loop_def)

lemmas example_fields = example_world_fields example_group_fields example_loop_fields

lemma example_found:
  "yielded example_results \<noteq> []"
  "length (yielded example_results) = Suc (Suc 0)"
  "newly_found_ids (yielded example_results) = {|AStr ''A'', AStr ''B''|}"
  "(\<lambda>p. AStr (paper_id p)) |`| fset_of_list (yielded example_results)
     = {|AStr ''A'', AStr ''B''|}"
  by (simp_all add: newly_found_ids_def example_results_def example_paper_def paper_id_def)

lemma example_step:
  assumes "AStr ''A'' |\<notin>| dict_get state ''group_ml''"
    and "AStr ''B'' |\<notin>| dict_get state ''group_ml''"
  shows "process_group (example_world example_results mail) example_config ex
           (example_loop state) example_group =
         (\<lparr>current_state =
             (if mail = Delivered
              then dict_set state ''group_ml''
                     (dict_get state ''group_ml'' |\<union>| {|AStr ''A'', AStr ''B''|})
              else state),
           state_changed = (mail = Delivered),
           calls =
             [Search_call ''group_ml'' [''diffusion'', ''sampling''] (dict_get state ''group_ml'')
                (search_window ex),
              Email_call ''group_ml''
                (email_subject ''KEYWORD_GROUP_ml'' (Suc (Suc 0)) ''2025-01-01'')
                (email_body (\<lambda>t. ''2025-01-01 00:00:00 UTC'') ''KEYWORD_GROUP_ml''
                   ''diffusion, sampling'' (yielded example_results))
                (Inr (mail = Delivered))]\<rparr>, None)"
proof -
  have new: "search_new_papers (\<lambda>q. example_results) example_now [''diffusion'', ''sampling'']
      (dict_get state ''group_ml'') (search_window ex) = yielded example_results"
    using assms by (rule example_search)
  show ?thesis
    by (simp add: process_group_notify example_fields new notify_group_news example_send
        example_subject example_found)
qed

text \<open>
  C1: when the search of a group yields a non-empty list \<open>new\<close>, handling the group
  calls \<open>send_email\<close> once (one mail call is added to the calls made). If it returned
  \<open>True\<close>, the group's entry of the state is the union of the seen set the state held
  for the group before (empty when it held none) and the ids of the papers found, and
  \<open>state_changed\<close> is set; if it returned \<open>False\<close>, the state and \<open>state_changed\<close> are as
  they were before. If it raised, the body ends with that exception and the state as
  it was.
\<close>

theorem notify_then_advance:
  fixes w cfg ex l g
  defines "previous \<equiv> (case map_of (current_state l) (fst g) of None \<Rightarrow> {||} | Some s \<Rightarrow> s)"
  defines "new \<equiv> search_new_papers (arxiv w (fst g)) (clock w (fst g)) (group_keywords (snd g))
                    previous (search_window ex)"
  defines "subject \<equiv> email_subject (group_name (snd g)) (length new) (today w (fst g))"
  defines "body \<equiv> email_body (strftime w) (group_name (snd g)) (group_keywords_string (snd g)) new"
  defines "answer \<equiv> send_email (compose w) (transport w (fst g)) subject body (SENDER_EMAIL cfg)
                     (SENDER_PASSWORD cfg) (RECEIVER_EMAIL cfg) (SMTP_SERVER cfg) (SMTP_PORT cfg)"
  defines "l' \<equiv> fst (process_group w cfg ex l g)"
  assumes "new \<noteq> []"
  shows "filter is_email (calls l') =
           filter is_email (calls l) @ [Email_call (fst g) subject body answer]
     \<and> (case answer of
          Inr sent \<Rightarrow>
            snd (process_group w cfg ex l g) = None
            \<and> (if sent
               then map_of (current_state l') (fst g) =
                      Some (previous |\<union>| fset_of_list (map (\<lambda>p. AStr (paper_id p)) new))
                    \<and> state_changed l'
               else current_state l' = current_state l
                    \<and> state_changed l' = state_changed l)
        | Inl e \<Rightarrow>
            snd (process_group w cfg ex l g) = Some e
            \<and> current_state l' = current_state l \<and> state_changed l' = state_changed l)"
  using assms
  by (simp add: process_group_def notify_group_def Let_def dict_get_def dict_set_def
      update_conv' newly_found_ids_def split: sum.splits)

theorem notify_then_advance_witness:
  "search_new_papers (\<lambda>q. example_results) example_now [''diffusion'', ''sampling'']
     {|AStr ''Z''|} (search_window False) \<noteq> []
   \<and> map_of (current_state (fst
        (process_group (example_world example_results Delivered) example_config False
           (example_loop [(''group_ml'', {|AStr ''Z''|})]) example_group))) ''group_ml''
       = Some {|AStr ''Z'', AStr ''A'', AStr ''B''|}
   \<and> state_changed (fst
        (process_group (example_world example_results Delivered) example_config False
           (example_loop [(''group_ml'', {|AStr ''Z''|})]) example_group))
   \<and> current_state (fst
        (process_group (example_world example_results Transport_error) example_config False
           (example_loop [(''group_ml'', {|AStr ''Z''|})]) example_group))
       = [(''group_ml'', {|AStr ''Z''|})]"
proof -
  have new: "search_new_papers (\<lambda>q. example_results) example_now [''diffusion'', ''sampling'']
     {|AStr ''Z''|} (search_window False) = yielded example_results"
    by (rule example_search) simp_all
  have run: "current_state (fst
        (process_group (example_world example_results Delivered) example_config False
           (example_loop [(''group_ml'', {|AStr ''Z''|})]) example_group))
       = [(''group_ml'', {|AStr ''Z'', AStr ''A'', AStr ''B''|})]"
    by (auto simp add: process_group_def notify_group_def Let_def dict_get_def dict_set_def
        example_fields new example_found example_send example_subject)
  show ?thesis
    using run
      notify_then_advance [where w = "example_world example_results Delivered"
        and cfg = example_config and ex = False
        and l = "example_loop [(''group_ml'', {|AStr ''Z''|})]" and g = example_group]
      notify_then_advance [where w = "example_world example_results Transport_error"
        and cfg = example_config and ex = False
        and l = "example_loop [(''group_ml'', {|AStr ''Z''|})]" and g = example_group]
    by (auto simp add: example_fields new example_found example_send example_subject)
qed

section \<open>The cycle: the search window\<close>

lemma process_group_mono:
  assumes "a |\<in>| dict_get (current_state l) G"
  shows "a |\<in>| dict_get (current_state (fst (process_group w cfg ex l g))) G"
  using process_group_state [of w cfg ex l g] assms
  by (auto simp add: dict_get_dict_set)

lemma process_groups_mono:
  "a |\<in>| dict_get (current_state l) G \<Longrightarrow>
   a |\<in>| dict_get (current_state (fst (process_groups w cfg ex l gs))) G"
proof (induction gs arbitrary: l)
  case Nil
  then show ?case by simp
next
  case (Cons g gs)
  obtain l1 err where step: "process_group w cfg ex l g = (l1, err)"
    by (cases "process_group w cfg ex l g")
  have "a |\<in>| dict_get (current_state l1) G"
    using process_group_mono [OF Cons.prems, of w cfg ex g] by (simp add: step)
  then show ?case
    using Cons.IH [of l1] by (cases err) (simp_all add: step)
qed

lemma searches_append: "searches (xs @ ys) = searches xs @ searches ys"
  by (induction xs rule: searches.induct) simp_all

lemma notify_group_calls:
  "\<exists>cs. calls (fst (notify_group w cfg l g seen new)) = calls l @ cs
        \<and> searches cs = [] \<and> filter is_save cs = []"
proof (cases "new = []")
  case True
  then show ?thesis by (simp add: notify_group_nothing)
next
  case False
  show ?thesis
    by (cases "send_email (compose w) (transport w (fst g))
            (email_subject (group_name (snd g)) (length new) (today w (fst g)))
            (email_body (strftime w) (group_name (snd g)) (group_keywords_string (snd g)) new)
            (SENDER_EMAIL cfg) (SENDER_PASSWORD cfg) (RECEIVER_EMAIL cfg) (SMTP_SERVER cfg)
            (SMTP_PORT cfg)")
       (simp_all add: notify_group_news [OF False])
qed

lemma filter_calls_notify:
  "searches (calls (fst (notify_group w cfg l g seen new))) = searches (calls l)"
  "filter is_save (calls (fst (notify_group w cfg l g seen new))) = filter is_save (calls l)"
  using notify_group_calls [of w cfg l g seen new] by (auto simp add: searches_append)

lemma process_group_searches:
  "searches (calls (fst (process_group w cfg ex l g))) =
     searches (calls l) @ [(fst g, search_window ex)]"
  by (simp add: process_group_notify filter_calls_notify searches_append)

lemma process_group_saves:
  "filter is_save (calls (fst (process_group w cfg ex l g))) = filter is_save (calls l)"
  by (simp add: process_group_notify filter_calls_notify)

lemma process_groups_saves:
  "filter is_save (calls (fst (process_groups w cfg ex l gs))) = filter is_save (calls l)"
proof (induction gs arbitrary: l)
  case Nil
  then show ?case by simp
next
  case (Cons g gs)
  obtain l1 err where step: "process_group w cfg ex l g = (l1, err)"
    by (cases "process_group w cfg ex l g")
  have "filter is_save (calls l1) = filter is_save (calls l)"
    using process_group_saves [of w cfg ex l g] by (simp add: step)
  then show ?case
    using Cons.IH [of l1] by (cases err) (simp_all add: step)
qed

lemma process_groups_searches:
  "\<exists>n. n \<le> length gs
      \<and> searches (calls (fst (process_groups w cfg ex l gs))) =
           searches (calls l) @ map (\<lambda>g. (fst g, search_window ex)) (take n gs)
      \<and> (snd (process_groups w cfg ex l gs) = None \<longrightarrow> n = length gs)"
proof (induction gs arbitrary: l)
  case Nil
  show ?case by simp
next
  case (Cons g gs)
  obtain l1 err where step: "process_group w cfg ex l g = (l1, err)"
    by (cases "process_group w cfg ex l g")
  have s1: "searches (calls l1) = searches (calls l) @ [(fst g, search_window ex)]"
    using process_group_searches [of w cfg ex l g] by (simp add: step)
  show ?case
  proof (cases err)
    case None
    have run: "process_groups w cfg ex l (g # gs) = process_groups w cfg ex l1 gs"
      by (simp add: step None)
    from Cons.IH [of l1] obtain n where n: "n \<le> length gs
      \<and> searches (calls (fst (process_groups w cfg ex l1 gs))) =
          searches (calls l1) @ map (\<lambda>g. (fst g, search_window ex)) (take n gs)
      \<and> (snd (process_groups w cfg ex l1 gs) = None \<longrightarrow> n = length gs)" ..
    have "Suc n \<le> length (g # gs)
      \<and> searches (calls (fst (process_groups w cfg ex l (g # gs)))) =
          searches (calls l) @ map (\<lambda>g. (fst g, search_window ex)) (take (Suc n) (g # gs))
      \<and> (snd (process_groups w cfg ex l (g # gs)) = None \<longrightarrow> Suc n = length (g # gs))"
      using n unfolding run by (simp add: s1)
    then show ?thesis ..
  next
    case (Some e)
    have run: "process_groups w cfg ex l (g # gs) = (l1, Some e)"
      by (simp add: step Some)
    have "Suc 0 \<le> length (g # gs)
      \<and> searches (calls (fst (process_groups w cfg ex l (g # gs)))) =
          searches (calls l) @ map (\<lambda>g. (fst g, search_window ex)) (take (Suc 0) (g # gs))
      \<and> (snd (process_groups w cfg ex l (g # gs)) = None \<longrightarrow> Suc 0 = length (g # gs))"
      unfolding run by (simp add: s1)
    then show ?thesis ..
  qed
qed

lemma example_loop_init:
  "\<lparr>current_state = state, state_changed = False, calls = []\<rparr> = example_loop state"
  by (simp add: example_loop_def)

lemma example_old_search:
  "search_new_papers (\<lambda>q. example_old_results) example_now kws {||} (search_window ex) =
     (if ex then [] else yielded example_old_results)"
  using example_window_in_range [of ex]
  by (simp add: search_new_papers_in_range is_new_fun example_old_results_def example_paper_def)
     (simp add: search_window_def timedelta_days_def timedelta_hours_def
        CHECK_INTERVAL_HOURS_def microseconds_per_hour_def)

lemma example_old_step:
  "snd (process_group (example_world example_old_results Delivered) example_config ex
          (example_loop []) example_group) = None
   \<and> filter is_email (calls (fst
         (process_group (example_world example_old_results Delivered) example_config ex
            (example_loop []) example_group))) =
       (if ex then []
        else [Email_call ''group_ml''
                (email_subject ''KEYWORD_GROUP_ml'' (Suc 0) ''2025-01-01'')
                (email_body (\<lambda>t. ''2025-01-01 00:00:00 UTC'') ''KEYWORD_GROUP_ml''
                   ''diffusion, sampling'' (yielded example_old_results))
                (Inr True)])"
proof -
  have subject: "CHR 0x0A \<notin> set (email_subject ''KEYWORD_GROUP_ml'' (Suc 0) ''2025-01-01'')"
    by code_simp
  have ne: "yielded example_old_results \<noteq> []" "length (yielded example_old_results) = Suc 0"
    by (simp_all add: example_old_results_def)
  show ?thesis
    by (simp add: process_group_notify example_fields dict_get_def example_old_search
        notify_group_nothing notify_group_news ne example_send subject)
qed

lemma example_bad_send:
  "send_email example_lib tr subject body (SENDER_EMAIL example_bad_config)
     (SENDER_PASSWORD example_bad_config) (RECEIVER_EMAIL example_bad_config)
     (SMTP_SERVER example_bad_config) (SMTP_PORT example_bad_config) = Inl ValueError"
  by (simp add: send_email_def example_bad_config_def truthy_def text_of_def example_lib_def)

lemma example_bad_step:
  "snd (process_group (example_world example_results Delivered) example_bad_config ex
          (example_loop []) example_group) = Some ValueError
   \<and> searches (calls (fst
         (process_group (example_world example_results Delivered) example_bad_config ex
            (example_loop []) example_group))) = [(''group_ml'', search_window ex)]"
proof -
  have new: "search_new_papers (\<lambda>q. example_results) example_now [''diffusion'', ''sampling'']
      {||} (search_window ex) = yielded example_results"
    by (rule example_search) simp_all
  show ?thesis
    by (simp add: process_group_notify example_fields dict_get_def new notify_group_news
        example_found example_bad_send)
qed

lemma example_file_loaded:
  "load_state example_file = ([(''group_ml'', {|AStr ''B'', AStr ''A''|})], True)"
  by (auto simp add: example_file_def load_state_def dict_set_def py_add_string)


lemma process_groups_Cons:
  "process_groups w cfg ex l (g # gs) =
     (if snd (process_group w cfg ex l g) = None
      then process_groups w cfg ex (fst (process_group w cfg ex l g)) gs
      else process_group w cfg ex l g)"
  by (cases "process_group w cfg ex l g") (auto split: option.splits)

lemma example_groups:
  "KEYWORD_GROUPS example_config = [example_group]"
  "KEYWORD_GROUPS example_bad_config = [example_group, example_group_b]"
  by (simp_all add: example_config_def example_bad_config_def)

lemma example_cycle_first:
  "abandoned (cycle (example_world example_old_results Delivered) example_config No_file) = None
   \<and> filter is_email
        (trace (cycle (example_world example_old_results Delivered) example_config No_file))
       \<noteq> []"
  using example_old_step [of False]
  by (simp add: cycle_def Let_def load_state_def example_loop_init example_groups
      process_groups_Cons del: process_groups.simps(2))

lemma example_cycle_later:
  "abandoned (cycle (example_world example_old_results Delivered) example_config example_file)
     = None
   \<and> filter is_email
        (trace (cycle (example_world example_old_results Delivered) example_config example_file))
       = []"
proof -
  have "search_new_papers (\<lambda>q. example_old_results) example_now [''diffusion'', ''sampling'']
      {|AStr ''B'', AStr ''A''|} (search_window True) = []"
    using example_window_in_range [of True]
    by (simp add: search_new_papers_in_range is_new_fun example_old_results_def
        example_paper_def)
       (simp add: search_window_def timedelta_hours_def CHECK_INTERVAL_HOURS_def
        microseconds_per_hour_def)
  then show ?thesis
    by (simp add: cycle_def Let_def example_file_loaded example_groups
        process_group_notify example_fields dict_get_def notify_group_nothing
        process_groups_Cons del: process_groups.simps(2))
qed

lemma example_cycle_bad:
  "abandoned (cycle (example_world example_results Delivered) example_bad_config No_file)
     = Some ValueError
   \<and> searches (trace (cycle (example_world example_results Delivered) example_bad_config
        No_file)) = [(''group_ml'', search_window False)]"
  using example_bad_step [of False]
  by (simp add: cycle_def Let_def load_state_def example_loop_init example_groups
      process_groups_Cons del: process_groups.simps(2))

text \<open>
  C2: the loop body passes to the search, as its window, 24 hours when the state file
  existed and 7 days when it did not (in microseconds): it is what the body does with
  the result of that very search. In a cycle the flag is the one \<open>load_state\<close>
  reported: the searches made are for the groups in the order of the configuration,
  each with that window, and they are made for every group unless the cycle was
  abandoned.
\<close>

theorem window_by_existed:
  fixes w cfg ex l g f
  defines "previous \<equiv> (case map_of (current_state l) (fst g) of None \<Rightarrow> {||} | Some s \<Rightarrow> s)"
  defines "window \<equiv> (if ex then 24 * 3600 * 1000000 else 7 * 24 * 3600 * 1000000 :: int)"
  shows "process_group w cfg ex l g =
           notify_group w cfg
             (l\<lparr>calls := calls l @
                  [Search_call (fst g) (group_keywords (snd g)) previous window]\<rparr>)
             g previous
             (search_new_papers (arxiv w (fst g)) (clock w (fst g)) (group_keywords (snd g))
                previous window)
     \<and> searches (trace (cycle w cfg f)) =
         map (\<lambda>g. (fst g, if snd (load_state f) then 24 * 3600 * 1000000
                           else 7 * 24 * 3600 * 1000000))
           (take (length (searches (trace (cycle w cfg f)))) (KEYWORD_GROUPS cfg))
     \<and> (abandoned (cycle w cfg f) = None \<longrightarrow>
          length (searches (trace (cycle w cfg f))) = length (KEYWORD_GROUPS cfg))"
proof -
  have sw: "\<And>b. search_window b = (if b then 24 * 3600 * 1000000 else 7 * 24 * 3600 * 1000000)"
    by (simp add: search_window_def timedelta_days_def timedelta_hours_def
        CHECK_INTERVAL_HOURS_def microseconds_per_hour_def)
  have step: "process_group w cfg ex l g =
           notify_group w cfg
             (l\<lparr>calls := calls l @
                  [Search_call (fst g) (group_keywords (snd g)) previous window]\<rparr>)
             g previous
             (search_new_papers (arxiv w (fst g)) (clock w (fst g)) (group_keywords (snd g))
                previous window)"
    unfolding previous_def window_def
    by (simp add: process_group_def Let_def dict_get_def search_window_def timedelta_days_def
        timedelta_hours_def CHECK_INTERVAL_HOURS_def microseconds_per_hour_def)
  let ?init = "\<lparr>current_state = fst (load_state f), state_changed = False, calls = []\<rparr>"
  let ?r = "process_groups w cfg (snd (load_state f)) ?init (KEYWORD_GROUPS cfg)"
  from process_groups_searches [of "KEYWORD_GROUPS cfg" w cfg "snd (load_state f)" ?init]
  obtain n where "n \<le> length (KEYWORD_GROUPS cfg)
    \<and> searches (calls (fst ?r)) =
        searches (calls ?init) @
        map (\<lambda>g. (fst g, search_window (snd (load_state f)))) (take n (KEYWORD_GROUPS cfg))
    \<and> (snd ?r = None \<longrightarrow> n = length (KEYWORD_GROUPS cfg))" ..
  then have n: "n \<le> length (KEYWORD_GROUPS cfg)"
    "searches (calls (fst ?r)) =
       map (\<lambda>g. (fst g, search_window (snd (load_state f)))) (take n (KEYWORD_GROUPS cfg))"
    "snd ?r = None \<longrightarrow> n = length (KEYWORD_GROUPS cfg)" by simp_all
  have len: "length (searches (calls (fst ?r))) = n" using n(1,2) by simp
  have tr: "searches (trace (cycle w cfg f)) =
      (if KEYWORD_GROUPS cfg = [] then [] else searches (calls (fst ?r)))"
    by (simp add: cycle_def Let_def searches_append split: option.splits)
  have ab: "abandoned (cycle w cfg f) = (if KEYWORD_GROUPS cfg = [] then None else snd ?r)"
    by (simp add: cycle_def Let_def split: option.splits)
  have "searches (trace (cycle w cfg f)) =
     map (\<lambda>g. (fst g, search_window (snd (load_state f))))
       (take (length (searches (trace (cycle w cfg f)))) (KEYWORD_GROUPS cfg))
   \<and> (abandoned (cycle w cfg f) = None \<longrightarrow>
        length (searches (trace (cycle w cfg f))) = length (KEYWORD_GROUPS cfg))"
  proof (cases "KEYWORD_GROUPS cfg = []")
    case True
    then show ?thesis by (simp add: tr)
  next
    case False
    then show ?thesis using n(2,3) len by (simp add: tr ab)
  qed
  with step show ?thesis
    by (simp only: sw) simp
qed

theorem window_by_existed_witness:
  "searches (trace (cycle (example_world example_old_results Delivered) example_config No_file))
     = [(''group_ml'', 604800000000)]
   \<and> filter is_email
        (trace (cycle (example_world example_old_results Delivered) example_config No_file))
       \<noteq> []
   \<and> searches
        (trace (cycle (example_world example_old_results Delivered) example_config example_file))
       = [(''group_ml'', 86400000000)]
   \<and> filter is_email
        (trace (cycle (example_world example_old_results Delivered) example_config example_file))
       = []
   \<and> length (KEYWORD_GROUPS example_bad_config) = 2
   \<and> searches
        (trace (cycle (example_world example_results Delivered) example_bad_config No_file))
       = [(''group_ml'', 604800000000)]
   \<and> abandoned (cycle (example_world example_results Delivered) example_bad_config No_file)
       = Some ValueError"
proof -
  let ?first = "cycle (example_world example_old_results Delivered) example_config No_file"
  let ?later = "cycle (example_world example_old_results Delivered) example_config example_file"
  have sw: "search_window False = 604800000000"
    by (simp add: search_window_def timedelta_days_def microseconds_per_hour_def)
  note first = window_by_existed [where w = "example_world example_old_results Delivered"
        and cfg = example_config and f = No_file, THEN conjunct2]
  note later = window_by_existed [where w = "example_world example_old_results Delivered"
        and cfg = example_config and f = example_file, THEN conjunct2]
  have old: "yielded example_old_results \<noteq> []"
    by (simp add: example_old_results_def)
  have found: "filter is_email (calls (fst
        (process_group (example_world example_old_results Delivered) example_config False
           (example_loop []) example_group))) \<noteq> []"
    and missed: "filter is_email (calls (fst
        (process_group (example_world example_old_results Delivered) example_config True
           (example_loop []) example_group))) = []"
    by (simp_all add: process_group_def notify_group_def Let_def dict_get_def example_fields
        example_old_search old split: sum.splits)
  have "length (searches (trace ?first)) = Suc 0"
    using first example_cycle_first by (simp add: example_groups)
  with first have 1: "searches (trace ?first) = [(''group_ml'', 604800000000)]"
    by (simp add: example_groups load_state_def example_group_fields)
  have "length (searches (trace ?later)) = Suc 0"
    using later example_cycle_later by (simp add: example_groups)
  with later have 2: "searches (trace ?later) = [(''group_ml'', 86400000000)]"
    by (simp add: example_groups example_file_loaded example_group_fields)
  show ?thesis
    using 1 2 found missed example_cycle_first example_cycle_later example_cycle_bad
    by (simp add: example_groups sw)
qed

section \<open>The cycle: saving\<close>

lemma newly_found_ids_hd:
  "new \<noteq> [] \<Longrightarrow> AStr (paper_id (hd new)) |\<in>| newly_found_ids new"
  by (cases new) (simp_all add: newly_found_ids_def)

lemma process_group_changed:
  assumes "state_changed (fst (process_group w cfg ex l g))" and "\<not> state_changed l"
  shows "\<exists>a. a |\<in>| dict_get (current_state (fst (process_group w cfg ex l g))) (fst g)
             \<and> a |\<notin>| dict_get (current_state l) (fst g)"
proof -
  let ?seen = "dict_get (current_state l) (fst g)"
  let ?new = "search_new_papers (arxiv w (fst g)) (clock w (fst g)) (group_keywords (snd g))
             ?seen (search_window ex)"
  from process_group_state [of w cfg ex l g] assms
  have ne: "?new \<noteq> []"
    and st: "current_state (fst (process_group w cfg ex l g)) =
      dict_set (current_state l) (fst g) (?seen |\<union>| newly_found_ids ?new)"
    by auto
  have "hd ?new \<in> set ?new" using ne by simp
  then have unseen: "AStr (paper_id (hd ?new)) |\<notin>| ?seen"
    by (rule search_new_papers_unseen)
  have found: "AStr (paper_id (hd ?new)) |\<in>| newly_found_ids ?new"
    using ne by (rule newly_found_ids_hd)
  from unseen found show ?thesis
    by (auto simp add: st dict_get_dict_set)
qed

lemma process_groups_changed:
  "state_changed (fst (process_groups w cfg ex l gs)) \<Longrightarrow> \<not> state_changed l \<Longrightarrow>
   \<exists>g \<in> set gs. \<exists>a.
      a |\<in>| dict_get (current_state (fst (process_groups w cfg ex l gs))) (fst g)
      \<and> a |\<notin>| dict_get (current_state l) (fst g)"
proof (induction gs arbitrary: l)
  case Nil
  then show ?case by simp
next
  case (Cons g gs)
  let ?r1 = "process_group w cfg ex l g"
  let ?l1 = "fst ?r1"
  show ?case
  proof (cases "snd ?r1 = None")
    case False
    have run: "process_groups w cfg ex l (g # gs) = ?r1"
      by (simp only: process_groups_Cons False if_False)
    from Cons.prems(1) have "state_changed ?l1" by (simp only: run)
    from process_group_changed [OF this Cons.prems(2)] show ?thesis
      by (auto simp only: run list.set)
  next
    case True
    have run: "process_groups w cfg ex l (g # gs) = process_groups w cfg ex ?l1 gs"
      using True by (simp add: process_groups_Cons del: process_groups.simps(2))
    show ?thesis
    proof (cases "state_changed ?l1")
      case True
      from process_group_changed [OF True Cons.prems(2)]
      obtain a where a: "a |\<in>| dict_get (current_state ?l1) (fst g)"
        "a |\<notin>| dict_get (current_state l) (fst g)" by blast
      from a(1) have "a |\<in>| dict_get (current_state (fst (process_groups w cfg ex ?l1 gs))) (fst g)"
        by (rule process_groups_mono)
      with a(2) show ?thesis by (auto simp only: run list.set)
    next
      case False
      from Cons.prems(1) have "state_changed (fst (process_groups w cfg ex ?l1 gs))"
        by (simp only: run)
      from Cons.IH [OF this False]
      obtain g' a where g': "g' \<in> set gs"
        "a |\<in>| dict_get (current_state (fst (process_groups w cfg ex ?l1 gs))) (fst g')"
        "a |\<notin>| dict_get (current_state ?l1) (fst g')" by auto
      from g'(3) have "a |\<notin>| dict_get (current_state l) (fst g')"
        using process_group_mono by blast
      with g'(1,2) show ?thesis by (auto simp only: run list.set)
    qed
  qed
qed

lemma process_groups_quiet:
  assumes "\<forall>g \<in> set gs.
     search_new_papers (arxiv w (fst g)) (clock w (fst g)) (group_keywords (snd g))
       (dict_get (current_state l) (fst g)) (search_window ex) = []"
  shows "snd (process_groups w cfg ex l gs) = None
     \<and> current_state (fst (process_groups w cfg ex l gs)) = current_state l
     \<and> state_changed (fst (process_groups w cfg ex l gs)) = state_changed l
     \<and> filter is_email (calls (fst (process_groups w cfg ex l gs))) = filter is_email (calls l)"
  using assms
proof (induction gs arbitrary: l)
  case Nil
  then show ?case by simp
next
  case (Cons g gs)
  have quiet: "search_new_papers (arxiv w (fst g)) (clock w (fst g)) (group_keywords (snd g))
       (dict_get (current_state l) (fst g)) (search_window ex) = []"
    using Cons.prems by simp
  let ?l1 = "l\<lparr>calls := calls l @
               [Search_call (fst g) (group_keywords (snd g)) (dict_get (current_state l) (fst g))
                  (search_window ex)]\<rparr>"
  have step: "process_group w cfg ex l g = (?l1, None)"
    by (rule process_group_no_news [OF quiet])
  have "\<forall>g \<in> set gs.
     search_new_papers (arxiv w (fst g)) (clock w (fst g)) (group_keywords (snd g))
       (dict_get (current_state ?l1) (fst g)) (search_window ex) = []"
    using Cons.prems by simp
  from Cons.IH [OF this] show ?case by (simp add: step)
qed

lemma cycle_saves:
  "filter is_save (trace (cycle w cfg f)) =
     (if KEYWORD_GROUPS cfg \<noteq> [] \<and> abandoned (cycle w cfg f) = None \<and>
         state_changed (fst (process_groups w cfg (snd (load_state f))
           \<lparr>current_state = fst (load_state f), state_changed = False, calls = []\<rparr>
           (KEYWORD_GROUPS cfg)))
      then [Save_call (current_state (fst (process_groups w cfg (snd (load_state f))
           \<lparr>current_state = fst (load_state f), state_changed = False, calls = []\<rparr>
           (KEYWORD_GROUPS cfg))))]
      else [])"
  by (simp add: cycle_def Let_def process_groups_saves split: option.splits)

lemma cycle_unsaved:
  "filter is_save (trace (cycle w cfg f)) = [] \<Longrightarrow> file_after (cycle w cfg f) = f"
  by (simp add: cycle_def Let_def split: if_splits option.splits)

lemma cycle_quiet:
  assumes "\<forall>g \<in> set (KEYWORD_GROUPS cfg).
     search_new_papers (arxiv w (fst g)) (clock w (fst g)) (group_keywords (snd g))
       (dict_get (fst (load_state f)) (fst g)) (search_window (snd (load_state f))) = []"
  shows "filter is_email (trace (cycle w cfg f)) = []
     \<and> filter is_save (trace (cycle w cfg f)) = []
     \<and> file_after (cycle w cfg f) = f
     \<and> memory_after (cycle w cfg f) =
         (if KEYWORD_GROUPS cfg = [] then None else Some (fst (load_state f)))"
proof -
  let ?init = "\<lparr>current_state = fst (load_state f), state_changed = False, calls = []\<rparr>"
  have "\<forall>g \<in> set (KEYWORD_GROUPS cfg).
     search_new_papers (arxiv w (fst g)) (clock w (fst g)) (group_keywords (snd g))
       (dict_get (current_state ?init) (fst g)) (search_window (snd (load_state f))) = []"
    using assms by simp
  from process_groups_quiet [OF this, of cfg]
  show ?thesis by (simp add: cycle_def Let_def process_groups_saves)
qed

lemma cycle_saved_changed:
  assumes "filter is_save (trace (cycle w cfg f)) \<noteq> []"
  shows "\<exists>g \<in> set (KEYWORD_GROUPS cfg). \<exists>m.
           memory_after (cycle w cfg f) = Some m
           \<and> dict_get m (fst g) \<noteq> dict_get (fst (load_state f)) (fst g)"
proof -
  let ?init = "\<lparr>current_state = fst (load_state f), state_changed = False, calls = []\<rparr>"
  let ?l = "fst (process_groups w cfg (snd (load_state f)) ?init (KEYWORD_GROUPS cfg))"
  from assms have ch: "state_changed ?l" and ne: "KEYWORD_GROUPS cfg \<noteq> []"
    by (simp_all add: cycle_saves split: if_splits)
  have "\<not> state_changed ?init" by simp
  from process_groups_changed [OF ch this]
  obtain g a where g: "g \<in> set (KEYWORD_GROUPS cfg)"
    "a |\<in>| dict_get (current_state ?l) (fst g)"
    "a |\<notin>| dict_get (fst (load_state f)) (fst g)" by auto
  have "memory_after (cycle w cfg f) = Some (current_state ?l)"
    using ne by (simp add: cycle_def Let_def split: option.splits)
  moreover have "dict_get (current_state ?l) (fst g) \<noteq> dict_get (fst (load_state f)) (fst g)"
    using g(2,3) by auto
  ultimately show ?thesis using g(1) by blast
qed

lemma search_nothing: "search_new_papers (\<lambda>q. []) now kws seen window = []"
  by (simp add: search_new_papers_def search_try_def split: sum.splits)

lemma example_cycle_saved:
  "filter is_save (trace (cycle (example_world example_results Delivered) example_config No_file))
     = [Save_call [(''group_ml'', {|AStr ''A'', AStr ''B''|})]]
   \<and> abandoned (cycle (example_world example_results Delivered) example_config No_file) = None
   \<and> memory_after (cycle (example_world example_results Delivered) example_config No_file)
       = Some [(''group_ml'', {|AStr ''A'', AStr ''B''|})]"
proof -
  have "process_group (example_world example_results Delivered) example_config False
           (example_loop []) example_group =
         (\<lparr>current_state = [(''group_ml'', {|AStr ''A'', AStr ''B''|})],
           state_changed = True,
           calls =
             [Search_call ''group_ml'' [''diffusion'', ''sampling''] {||} (search_window False),
              Email_call ''group_ml''
                (email_subject ''KEYWORD_GROUP_ml'' (Suc (Suc 0)) ''2025-01-01'')
                (email_body (\<lambda>t. ''2025-01-01 00:00:00 UTC'') ''KEYWORD_GROUP_ml''
                   ''diffusion, sampling'' (yielded example_results))
                (Inr True)]\<rparr>, None)"
    using example_step [of "[]" Delivered False]
    by (simp add: dict_get_def dict_set_def)
  then show ?thesis
    by (simp add: cycle_def Let_def load_state_def example_loop_init example_groups
        process_groups_Cons del: process_groups.simps(2))
qed

text \<open>
  C9: if every search of a cycle returns the empty list then the cycle sends no mail,
  does not call \<open>save_state\<close>, leaves the state file as it was, and ends with the state
  it loaded. In every cycle \<open>save_state\<close> is called at most once; without a call the
  state file is as it was; and with a call, the seen set of at least one configured
  group differs from the one loaded.
\<close>

theorem quiet_cycle_no_op:
  "((\<forall>g \<in> set (KEYWORD_GROUPS cfg).
        search_new_papers (arxiv w (fst g)) (clock w (fst g)) (group_keywords (snd g))
          (dict_get (fst (load_state f)) (fst g)) (search_window (snd (load_state f)))
        = [])
     \<longrightarrow> filter is_email (trace (cycle w cfg f)) = []
         \<and> filter is_save (trace (cycle w cfg f)) = []
         \<and> file_after (cycle w cfg f) = f
         \<and> memory_after (cycle w cfg f) =
             (if KEYWORD_GROUPS cfg = [] then None else Some (fst (load_state f))))
   \<and> length (filter is_save (trace (cycle w cfg f))) \<le> 1
   \<and> (filter is_save (trace (cycle w cfg f)) = [] \<longrightarrow> file_after (cycle w cfg f) = f)
   \<and> (filter is_save (trace (cycle w cfg f)) \<noteq> [] \<longrightarrow>
        (\<exists>g \<in> set (KEYWORD_GROUPS cfg). \<exists>m.
           memory_after (cycle w cfg f) = Some m
           \<and> dict_get m (fst g) \<noteq> dict_get (fst (load_state f)) (fst g)))"
  using cycle_quiet [where cfg = cfg and w = w and f = f]
    cycle_unsaved [where cfg = cfg and w = w and f = f]
    cycle_saved_changed [where cfg = cfg and w = w and f = f]
  by (simp add: cycle_saves)

theorem quiet_cycle_no_op_witness:
  "search_new_papers (\<lambda>q. []) example_now [''diffusion'', ''sampling''] {||}
     (search_window False) = []
   \<and> filter is_email (trace (cycle (example_world [] Delivered) example_config No_file)) = []
   \<and> filter is_save (trace (cycle (example_world [] Delivered) example_config No_file)) = []
   \<and> file_after (cycle (example_world [] Delivered) example_config No_file) = No_file
   \<and> memory_after (cycle (example_world [] Delivered) example_config No_file) = Some []
   \<and> filter is_save
        (trace (cycle (example_world example_results Delivered) example_config No_file))
       = [Save_call [(''group_ml'', {|AStr ''A'', AStr ''B''|})]]
   \<and> (\<exists>m. memory_after (cycle (example_world example_results Delivered) example_config No_file)
            = Some m
          \<and> dict_get m ''group_ml'' \<noteq> {||})"
  using
    quiet_cycle_no_op [where w = "example_world [] Delivered" and cfg = example_config
      and f = No_file]
    quiet_cycle_no_op [where w = "example_world example_results Delivered"
      and cfg = example_config and f = No_file]
    example_cycle_saved
  by (simp add: search_nothing example_fields example_groups load_state_def dict_get_def)

section \<open>The cycle: seen ids\<close>

lemma process_group_keeps:
  assumes "map_of (current_state l) G = Some s" and "a |\<in>| s"
  shows "\<exists>s'. map_of (current_state (fst (process_group w cfg ex l g))) G = Some s' \<and> a |\<in>| s'"
  using process_group_state [of w cfg ex l g] assms
  by (auto simp add: map_of_dict_set dict_get_def)

lemma process_groups_keeps:
  "map_of (current_state l) G = Some s \<Longrightarrow> a |\<in>| s \<Longrightarrow>
   \<exists>s'. map_of (current_state (fst (process_groups w cfg ex l gs))) G = Some s' \<and> a |\<in>| s'"
proof (induction gs arbitrary: l s)
  case Nil
  then show ?case by simp
next
  case (Cons g gs)
  let ?r1 = "process_group w cfg ex l g"
  from process_group_keeps [OF Cons.prems, of w cfg ex g]
  obtain s1 where s1: "map_of (current_state (fst ?r1)) G = Some s1" "a |\<in>| s1" by blast
  show ?case
  proof (cases "snd ?r1 = None")
    case True
    have run: "process_groups w cfg ex l (g # gs) = process_groups w cfg ex (fst ?r1) gs"
      using True by (simp add: process_groups_Cons del: process_groups.simps(2))
    from Cons.IH [OF s1] show ?thesis by (simp only: run)
  next
    case False
    have run: "process_groups w cfg ex l (g # gs) = ?r1"
      by (simp only: process_groups_Cons False if_False)
    from s1 show ?thesis by (simp only: run) blast
  qed
qed

lemma list_all_update:
  "list_all P al \<Longrightarrow> P (k, v) \<Longrightarrow> list_all P (AList.update k v al)"
  by (induction al) auto

lemma strings_union:
  "ffilter is_str S = S \<Longrightarrow> ffilter is_str T = T \<Longrightarrow> ffilter is_str (S |\<union>| T) = S |\<union>| T"
  by (auto simp add: fset_eq_iff)

lemma strings_new: "ffilter is_str (newly_found_ids new) = newly_found_ids new"
  by (auto simp add: newly_found_ids_def is_str_def fset_eq_iff fset_of_list_elem)

lemma strings_dict_get:
  "list_all (\<lambda>kv. ffilter is_str (snd kv) = snd kv) state \<Longrightarrow>
   ffilter is_str (dict_get state k) = dict_get state k"
proof -
  assume all: "list_all (\<lambda>kv. ffilter is_str (snd kv) = snd kv) state"
  show ?thesis
  proof (cases "map_of state k")
    case None
    then show ?thesis by (auto simp add: dict_get_def)
  next
    case (Some S)
    then have "(k, S) \<in> set state" by (rule map_of_SomeD)
    with all have "ffilter is_str S = S" by (auto simp add: list_all_iff)
    with Some show ?thesis by (simp add: dict_get_def)
  qed
qed

lemma string_state_dict_set:
  assumes "string_state state" and "ffilter is_str S = S"
  shows "string_state (dict_set state k S)"
  using assms
  by (simp add: string_state_def dict_set_def distinct_update list_all_update)

lemma process_group_strings:
  assumes "string_state (current_state l)"
  shows "string_state (current_state (fst (process_group w cfg ex l g)))"
proof -
  from assms have "ffilter is_str (dict_get (current_state l) (fst g))
      = dict_get (current_state l) (fst g)"
    by (simp add: string_state_def strings_dict_get)
  then have "\<And>new. string_state (dict_set (current_state l) (fst g)
      (dict_get (current_state l) (fst g) |\<union>| newly_found_ids new))"
    using assms by (intro string_state_dict_set strings_union strings_new)
  with process_group_state [of w cfg ex l g] assms show ?thesis by auto
qed

lemma process_groups_strings:
  "string_state (current_state l) \<Longrightarrow>
   string_state (current_state (fst (process_groups w cfg ex l gs)))"
proof (induction gs arbitrary: l)
  case Nil
  then show ?case by simp
next
  case (Cons g gs)
  let ?r1 = "process_group w cfg ex l g"
  have s1: "string_state (current_state (fst ?r1))"
    using Cons.prems by (rule process_group_strings)
  show ?case
  proof (cases "snd ?r1 = None")
    case True
    have run: "process_groups w cfg ex l (g # gs) = process_groups w cfg ex (fst ?r1) gs"
      using True by (simp add: process_groups_Cons del: process_groups.simps(2))
    from Cons.IH [OF s1] show ?thesis by (simp only: run)
  next
    case False
    have run: "process_groups w cfg ex l (g # gs) = ?r1"
      by (simp only: process_groups_Cons False if_False)
    from s1 show ?thesis by (simp only: run)
  qed
qed

lemma process_groups_flag:
  "state_changed l \<Longrightarrow> state_changed (fst (process_groups w cfg ex l gs))"
proof (induction gs arbitrary: l)
  case Nil
  then show ?case by simp
next
  case (Cons g gs)
  let ?r1 = "process_group w cfg ex l g"
  have s1: "state_changed (fst ?r1)"
    using process_group_state [of w cfg ex l g] Cons.prems by auto
  show ?case
  proof (cases "snd ?r1 = None")
    case True
    have run: "process_groups w cfg ex l (g # gs) = process_groups w cfg ex (fst ?r1) gs"
      using True by (simp add: process_groups_Cons del: process_groups.simps(2))
    from Cons.IH [OF s1] show ?thesis by (simp only: run)
  next
    case False
    have run: "process_groups w cfg ex l (g # gs) = ?r1"
      by (simp only: process_groups_Cons False if_False)
    from s1 show ?thesis by (simp only: run)
  qed
qed

lemma process_groups_unchanged:
  "\<not> state_changed (fst (process_groups w cfg ex l gs)) \<Longrightarrow>
   current_state (fst (process_groups w cfg ex l gs)) = current_state l"
proof (induction gs arbitrary: l)
  case Nil
  then show ?case by simp
next
  case (Cons g gs)
  let ?r1 = "process_group w cfg ex l g"
  show ?case
  proof (cases "snd ?r1 = None")
    case True
    have run: "process_groups w cfg ex l (g # gs) = process_groups w cfg ex (fst ?r1) gs"
      using True by (simp add: process_groups_Cons del: process_groups.simps(2))
    from Cons.prems have later: "\<not> state_changed (fst (process_groups w cfg ex (fst ?r1) gs))"
      unfolding run .
    have "\<not> state_changed (fst ?r1)"
      using later process_groups_flag [of "fst ?r1" w cfg ex gs] by blast
    with process_group_state [of w cfg ex l g]
    have "current_state (fst ?r1) = current_state l" by auto
    with Cons.IH [OF later] show ?thesis by (simp only: run)
  next
    case False
    have run: "process_groups w cfg ex l (g # gs) = ?r1"
      by (simp only: process_groups_Cons False if_False)
    from Cons.prems have "\<not> state_changed (fst ?r1)" unfolding run .
    with process_group_state [of w cfg ex l g]
    have "current_state (fst ?r1) = current_state l" by auto
    then show ?thesis by (simp only: run)
  qed
qed

lemma cycle_reload:
  assumes "memory_after (cycle w cfg f) = Some m" and "abandoned (cycle w cfg f) = None"
    and "disk w = Write_ok" and "string_state (fst (load_state f))"
  shows "fst (load_state (file_after (cycle w cfg f))) = m"
proof -
  let ?init = "\<lparr>current_state = fst (load_state f), state_changed = False, calls = []\<rparr>"
  let ?r = "process_groups w cfg (snd (load_state f)) ?init (KEYWORD_GROUPS cfg)"
  from assms(1) have ne: "KEYWORD_GROUPS cfg \<noteq> []"
    by (auto simp add: cycle_def)
  from assms(2) ne have ok: "snd ?r = None"
    by (simp add: cycle_def Let_def split: option.splits)
  from assms(1) ne have m: "m = current_state (fst ?r)"
    by (simp add: cycle_def Let_def split: option.splits if_splits)
  show ?thesis
  proof (cases "state_changed (fst ?r)")
    case True
    have "string_state (current_state ?init)" using assms(4) by simp
    then have "string_state (current_state (fst ?r))" by (rule process_groups_strings)
    then have "load_state (save_state Write_ok f (current_state (fst ?r)))
        = (current_state (fst ?r), True)"
      using load_save_strings by blast
    then show ?thesis
      using True ne ok assms(3) by (simp add: cycle_def Let_def m)
  next
    case False
    then have "current_state (fst ?r) = current_state ?init"
      by (rule process_groups_unchanged)
    then show ?thesis
      using False ne ok by (simp add: cycle_def Let_def m)
  qed
qed

lemma process_group_disk: "process_group (w\<lparr>disk := d\<rparr>) cfg ex l g = process_group w cfg ex l g"
  by (simp add: process_group_def notify_group_def Let_def)

lemma process_groups_disk:
  "process_groups (w\<lparr>disk := d\<rparr>) cfg ex l gs = process_groups w cfg ex l gs"
  by (induction gs arbitrary: l) (simp_all add: process_group_disk)

lemma save_open_fails: "save_state Open_fails f state = f"
  by (simp add: save_state_def split: sum.splits)

lemma example_groups_run:
  "process_groups (example_world example_results Delivered) example_config False
     (example_loop []) [example_group] =
   process_group (example_world example_results Delivered) example_config False
     (example_loop []) example_group"
  by (cases "process_group (example_world example_results Delivered) example_config False
     (example_loop []) example_group") (auto split: option.splits)

lemma example_first_step:
  "snd (process_group (example_world example_results Delivered) example_config False
          (example_loop []) example_group) = None
   \<and> state_changed (fst (process_group (example_world example_results Delivered)
          example_config False (example_loop []) example_group))
   \<and> current_state (fst (process_group (example_world example_results Delivered)
          example_config False (example_loop []) example_group))
       = [(''group_ml'', {|AStr ''A'', AStr ''B''|})]"
  using example_step [of "[]" Delivered False]
  by (simp add: dict_get_def dict_set_def)

text \<open>
  C4, as the claim states it, fails across cycles: the first cycle mails two papers and
  puts their ids into the state of \<open>group_ml\<close>, but the write of the state file fails
  (\<open>open\<close> raises, \<open>save_state\<close> logs it); the next cycle loads the state again from the
  file, which is still absent, and works with the empty state.
\<close>

theorem seen_ids_lost_counterexample:
  "memory_after
     (cycle ((example_world example_results Delivered)\<lparr>disk := Open_fails\<rparr>) example_config
        No_file)
     = Some [(''group_ml'', {|AStr ''A'', AStr ''B''|})]
   \<and> file_after
       (cycle ((example_world example_results Delivered)\<lparr>disk := Open_fails\<rparr>) example_config
          No_file)
     = No_file
   \<and> memory_after
       (cycle (example_world [] Delivered) example_config
          (file_after
             (cycle ((example_world example_results Delivered)\<lparr>disk := Open_fails\<rparr>)
                example_config No_file)))
     = Some []"
proof -
  have first: "cycle ((example_world example_results Delivered)\<lparr>disk := Open_fails\<rparr>)
      example_config No_file =
    \<lparr>file_after = No_file,
     memory_after = Some [(''group_ml'', {|AStr ''A'', AStr ''B''|})],
     trace = trace (cycle ((example_world example_results Delivered)\<lparr>disk := Open_fails\<rparr>)
      example_config No_file),
     abandoned = None\<rparr>"
    using example_first_step
    by (simp add: cycle_def Let_def load_state_def example_loop_init example_groups
        process_groups_disk example_groups_run save_open_fails
        del: process_groups.simps)
  have second: "memory_after (cycle (example_world [] Delivered) example_config No_file)
      = Some []"
    by (simp add: cycle_def Let_def load_state_def example_groups process_group_notify
        example_fields search_nothing notify_group_nothing)
  from first have "file_after
       (cycle ((example_world example_results Delivered)\<lparr>disk := Open_fails\<rparr>) example_config
          No_file) = No_file"
    by (metis outcome.select_convs(1))
  moreover from first have "memory_after
     (cycle ((example_world example_results Delivered)\<lparr>disk := Open_fails\<rparr>) example_config
        No_file) = Some [(''group_ml'', {|AStr ''A'', AStr ''B''|})]"
    by (metis outcome.select_convs(2))
  ultimately show ?thesis using second by simp
qed

text \<open>
  C4, amended: within a cycle, an id in the seen set that the state holds for a group
  is in the seen set the state holds for that group after the handling of any group,
  and after the loop over any list of groups, from any state of the loop (an entry is
  only ever replaced by its union with new ids). Across cycles the state is loaded
  again from the state file: an id in the state at the end of a cycle is in the state
  loaded from the file the cycle leaves when the cycle was not abandoned, the write
  goes through, and the state loaded at its start mapped distinct group ids to sets of
  strings.
\<close>

theorem seen_ids_kept:
  "(map_of (current_state l) G = Some s \<and> a |\<in>| s \<longrightarrow>
      (\<exists>s'. map_of (current_state (fst (process_group w cfg ex l g))) G = Some s' \<and> a |\<in>| s')
      \<and> (\<exists>s'. map_of (current_state (fst (process_groups w cfg ex l gs))) G = Some s'
              \<and> a |\<in>| s'))
   \<and> (memory_after (cycle w cfg f) = Some m \<and> map_of m G = Some s \<and> a |\<in>| s
       \<and> abandoned (cycle w cfg f) = None \<and> disk w = Write_ok
       \<and> string_state (fst (load_state f))
       \<longrightarrow> (\<exists>s'. map_of (fst (load_state (file_after (cycle w cfg f)))) G = Some s'
                \<and> a |\<in>| s'))"
proof -
  have step: "map_of (current_state l) G = Some s \<and> a |\<in>| s \<longrightarrow>
      (\<exists>s'. map_of (current_state (fst (process_group w cfg ex l g))) G = Some s' \<and> a |\<in>| s')"
    by (auto simp add: process_group_def notify_group_def Let_def dict_get_def dict_set_def
        update_conv' split: sum.splits)
  from step process_groups_keeps [of l G s a w cfg ex gs] cycle_reload [of w cfg f m]
  show ?thesis by auto
qed

theorem seen_ids_kept_witness:
  "map_of (current_state (example_loop [(''group_ml'', {|AStr ''Z''|})])) ''group_ml''
     = Some {|AStr ''Z''|}
   \<and> map_of (current_state (fst
        (process_group (example_world example_results Delivered) example_config True
           (example_loop [(''group_ml'', {|AStr ''Z''|})]) example_group))) ''group_ml''
       = Some {|AStr ''Z'', AStr ''A'', AStr ''B''|}
   \<and> (\<exists>s'. map_of (current_state (fst
        (process_groups (example_world example_results Delivered) example_config True
           (example_loop [(''group_ml'', {|AStr ''Z''|})]) [example_group]))) ''group_ml''
         = Some s' \<and> AStr ''Z'' |\<in>| s')
   \<and> memory_after (cycle (example_world example_results Delivered) example_config No_file)
       = Some [(''group_ml'', {|AStr ''A'', AStr ''B''|})]
   \<and> abandoned (cycle (example_world example_results Delivered) example_config No_file) = None
   \<and> string_state (fst (load_state No_file))
   \<and> (\<exists>s'. map_of (fst (load_state (file_after
          (cycle (example_world example_results Delivered) example_config No_file))))
          ''group_ml'' = Some s' \<and> AStr ''A'' |\<in>| s')"
proof -
  have start: "map_of (current_state (example_loop [(''group_ml'', {|AStr ''Z''|})])) ''group_ml''
     = Some {|AStr ''Z''|}"
    by (simp add: example_loop_fields)
  have step: "map_of (current_state (fst
        (process_group (example_world example_results Delivered) example_config True
           (example_loop [(''group_ml'', {|AStr ''Z''|})]) example_group))) ''group_ml''
       = Some {|AStr ''Z'', AStr ''A'', AStr ''B''|}"
  proof -
    have "search_new_papers (\<lambda>q. example_results) example_now [''diffusion'', ''sampling'']
        {|AStr ''Z''|} (search_window True) = yielded example_results"
      by (rule example_search) simp_all
    then show ?thesis
      by (auto simp add: process_group_def notify_group_def Let_def dict_get_def dict_set_def
          example_fields example_found example_send example_subject)
  qed
  have empty: "string_state (fst (load_state No_file))"
    by (simp add: load_state_def string_state_def)
  show ?thesis
    using start step empty example_cycle_saved
      seen_ids_kept [where l = "example_loop [(''group_ml'', {|AStr ''Z''|})]"
        and G = "''group_ml''" and s = "{|AStr ''Z''|}" and a = "AStr ''Z''"
        and w = "example_world example_results Delivered" and cfg = example_config
        and ex = True and g = example_group and gs = "[example_group]"]
      seen_ids_kept [where w = "example_world example_results Delivered"
        and cfg = example_config and f = No_file
        and m = "[(''group_ml'', {|AStr ''A'', AStr ''B''|})]" and G = "''group_ml''"
        and s = "{|AStr ''A'', AStr ''B''|}" and a = "AStr ''A''"]
    by (simp add: example_world_fields)
qed

section \<open>Paper ids\<close>

lemma split_sep_nonempty: "split_sep c s \<noteq> []"
  by (induction s) (auto split: list.splits)

lemma split_sep_no_sep: "c \<notin> set s \<Longrightarrow> split_sep c s = [s]"
  by (induction s) auto

lemma split_sep_append: "split_sep c (pre @ c # s) = split_sep c pre @ split_sep c s"
  by (induction pre) (auto simp: split_sep_nonempty split: list.splits)

lemma last_split_sep_append:
  "last (split_sep c (pre @ c # s)) = last (split_sep c s)"
  by (simp add: split_sep_append split_sep_nonempty)

lemma paper_id_last_segment:
  assumes "CHR ''/'' \<notin> set seg" and "entry_id p = base @ ''/'' @ seg"
  shows "paper_id p = seg"
  using assms by (simp add: paper_id_def last_split_sep_append split_sep_no_sep)

text \<open>
  C10: the paper id is the last segment of the entry link after a \<open>/\<close>, version suffix
  included. Take two links that differ only in that segment (\<open>v1\<close> and \<open>v2\<close>, say
  \<open>2301.12345v1\<close> and \<open>2301.12345v2\<close>), a state that holds \<open>v1\<close> for the group, and a
  client that yields both papers, the second recent. The ids are the two segments; the
  search skips the first paper and returns the second as new; the loop body mails it;
  and when \<open>send_email\<close> returns \<open>True\<close> the state holds \<open>v1\<close> and \<open>v2\<close> for the group.
\<close>

theorem paper_id_with_version:
  fixes w cfg ex l g v1 v2 base p1 p2
  defines "subject \<equiv> email_subject (group_name (snd g)) (Suc 0) (today w (fst g))"
  defines "body \<equiv> email_body (strftime w) (group_name (snd g)) (group_keywords_string (snd g))
                     [p2]"
  defines "answer \<equiv> send_email (compose w) (transport w (fst g)) subject body (SENDER_EMAIL cfg)
                     (SENDER_PASSWORD cfg) (RECEIVER_EMAIL cfg) (SMTP_SERVER cfg) (SMTP_PORT cfg)"
  defines "l' \<equiv> fst (process_group w cfg ex l g)"
  assumes "CHR ''/'' \<notin> set v1" and "CHR ''/'' \<notin> set v2" and "v1 \<noteq> v2"
    and "entry_id p1 = base @ ''/'' @ v1" and "entry_id p2 = base @ ''/'' @ v2"
    and "map_of (current_state l) (fst g) = Some {|AStr v1|}"
    and "arxiv w (fst g) (build_query (group_keywords (snd g))) = [Yield p1, Yield p2]"
    and "0 \<le> clock w (fst g) - search_window ex"
    and "clock w (fst g) - search_window ex \<le> datetime_max"
    and "clock w (fst g) - search_window ex \<le> published p2
         \<or> clock w (fst g) - search_window ex \<le> updated p2"
  shows "paper_id p1 = v1 \<and> paper_id p2 = v2
     \<and> search_new_papers (arxiv w (fst g)) (clock w (fst g)) (group_keywords (snd g))
          {|AStr v1|} (search_window ex) = [p2]
     \<and> filter is_email (calls l') =
          filter is_email (calls l) @ [Email_call (fst g) subject body answer]
     \<and> (answer = Inr True \<longrightarrow>
          map_of (current_state l') (fst g) = Some {|AStr v1, AStr v2|})"
proof -
  have 1: "paper_id p1 = v1" using assms(5,8) by (rule paper_id_last_segment)
  have 2: "paper_id p2 = v2" using assms(6,9) by (rule paper_id_last_segment)
  have new: "search_new_papers (arxiv w (fst g)) (clock w (fst g)) (group_keywords (snd g))
          {|AStr v1|} (search_window ex) = [p2]"
    using assms(7,11,12,13,14) 1 2
    by (simp add: search_new_papers_in_range is_new_fun)
  have "filter is_email (calls l') =
          filter is_email (calls l) @ [Email_call (fst g) subject body answer]
     \<and> (answer = Inr True \<longrightarrow>
          map_of (current_state l') (fst g) = Some {|AStr v1, AStr v2|})"
    unfolding l'_def answer_def subject_def body_def
    using assms(10)
    by (auto simp add: process_group_def notify_group_def Let_def dict_get_def dict_set_def
        update_conv' newly_found_ids_def new 2 split: sum.splits)
  with 1 2 new show ?thesis by simp
qed

theorem paper_id_with_version_witness:
  "paper_id example_v1 = ''2301.12345v1'' \<and> paper_id example_v2 = ''2301.12345v2''
   \<and> search_new_papers (\<lambda>q. [Yield example_v1, Yield example_v2]) example_now
        [''diffusion'', ''sampling''] {|AStr ''2301.12345v1''|} (search_window True)
      = [example_v2]
   \<and> map_of (current_state (fst
        (process_group (example_world [Yield example_v1, Yield example_v2] Delivered)
           example_config True (example_loop [(''group_ml'', {|AStr ''2301.12345v1''|})])
           example_group))) ''group_ml''
      = Some {|AStr ''2301.12345v1'', AStr ''2301.12345v2''|}"
proof -
  have recent: "example_now - search_window True \<le> updated example_v2"
    by (simp add: example_v2_def example_paper_def search_window_def timedelta_hours_def
        CHECK_INTERVAL_HOURS_def microseconds_per_hour_def)
  have ids: "paper_id example_v1 = ''2301.12345v1''" "paper_id example_v2 = ''2301.12345v2''"
    by (simp_all add: example_v1_def example_v2_def example_paper_def paper_id_def)
  have found: "search_new_papers (\<lambda>q. [Yield example_v1, Yield example_v2]) example_now
        [''diffusion'', ''sampling''] {|AStr ''2301.12345v1''|} (search_window True)
      = [example_v2]"
    using example_window_in_range [of True] recent
    by (simp add: search_new_papers_in_range is_new_fun ids)
  have run: "map_of (current_state (fst
        (process_group (example_world [Yield example_v1, Yield example_v2] Delivered)
           example_config True (example_loop [(''group_ml'', {|AStr ''2301.12345v1''|})])
           example_group))) ''group_ml''
      = Some {|AStr ''2301.12345v1'', AStr ''2301.12345v2''|}"
    by (auto simp add: process_group_def notify_group_def Let_def dict_get_def dict_set_def
        example_fields found example_send example_subject_one newly_found_ids_def ids)
  show ?thesis
    using run
      paper_id_with_version [where ?v1.0 = "''2301.12345v1''" and ?v2.0 = "''2301.12345v2''"
        and base = "''http://arxiv.org/abs''" and ?p1.0 = example_v1 and ?p2.0 = example_v2
        and w = "example_world [Yield example_v1, Yield example_v2] Delivered"
        and cfg = example_config and ex = True
        and l = "example_loop [(''group_ml'', {|AStr ''2301.12345v1''|})]"
        and g = example_group]
      example_window_in_range [of True] recent
    by (simp add: example_fields example_send example_subject_one)
       (simp add: example_v1_def example_v2_def example_paper_def)
qed

end
